theory Spec2Isabelle
  imports Complex_Main
begin

section \<open>BVH cache of a mesh (source/blender/blenkernel/intern/bvhutils.cc)\<close>

text \<open>
  The functions of \<^verbatim>\<open>bvhutils.cc\<close> are embedded as HOL functions. Mutation is explicit
  state passing; \<^verbatim>\<open>BLI_assert\<close> is modelled as it behaves in a debug build: a failed
  assertion ends the call with the error \<open>AssertFailed\<close>. Reads outside an array and through
  a null pointer, undefined in C++, are errors of the model as well.
\<close>

subsection \<open>Errors\<close>

datatype error = AssertFailed | OutOfBounds | NullDeref | Deadlock | InvalidTree

text \<open>Sequencing of fallible steps: the first error ends the computation.\<close>

definition ebind :: "error + 'a \<Rightarrow> ('a \<Rightarrow> error + 'b) \<Rightarrow> error + 'b" where
  "ebind m f = (case m of Inl e \<Rightarrow> Inl e | Inr x \<Rightarrow> f x)"

text \<open>
  Modelled from the spec: the macro \<^verbatim>\<open>BLI_assert\<close> is not in these sources; a violated
  programming contract is a fatal assertion.
\<close>

definition BLI_assert :: "bool \<Rightarrow> error + unit" where
  "BLI_assert b = (if b then Inr () else Inl AssertFailed)"

subsection \<open>Cache types\<close>

text \<open>
  Modelled from the spec: the enumeration \<^verbatim>\<open>BVHCacheType\<close> is declared in
  \<^verbatim>\<open>BKE_bvhutils.h\<close>, which is not in these sources: a closed enumeration of variants, one
  slot for each. Its enumerators are the ones the \<^verbatim>\<open>switch\<close> statements of the source name. \<open>BVHTREE_MAX_ITEM\<close> is the number
  of slots and not a slot of its own.
\<close>

datatype BVHCacheType =
    BVHTREE_FROM_VERTS
  | BVHTREE_FROM_EDGES
  | BVHTREE_FROM_FACES
  | BVHTREE_FROM_LOOPTRI
  | BVHTREE_FROM_LOOPTRI_NO_HIDDEN
  | BVHTREE_FROM_LOOSEVERTS
  | BVHTREE_FROM_LOOSEEDGES
  | BVHTREE_FROM_EM_VERTS
  | BVHTREE_FROM_EM_EDGES
  | BVHTREE_FROM_EM_LOOPTRI
  | BVHTREE_MAX_ITEM

text \<open>The slots \<open>0 .. BVHTREE_MAX_ITEM - 1\<close> of the array \<^verbatim>\<open>items\<close>.\<close>

definition slot_types :: "BVHCacheType list" where
  "slot_types =
     [BVHTREE_FROM_VERTS, BVHTREE_FROM_EDGES, BVHTREE_FROM_FACES, BVHTREE_FROM_LOOPTRI,
      BVHTREE_FROM_LOOPTRI_NO_HIDDEN, BVHTREE_FROM_LOOSEVERTS, BVHTREE_FROM_LOOSEEDGES,
      BVHTREE_FROM_EM_VERTS, BVHTREE_FROM_EM_EDGES, BVHTREE_FROM_EM_LOOPTRI]"

text \<open>A \<^verbatim>\<open>BVHTree *\<close>: \<open>None\<close> is \<^verbatim>\<open>nullptr\<close>, \<open>Some a\<close> the address of a tree.\<close>

type_synonym tree_ptr = "nat option"

record BVHCacheItem =
  is_filled :: bool
  item_tree :: tree_ptr

text \<open>
  The array \<^verbatim>\<open>items[BVHTREE_MAX_ITEM]\<close> is indexed by the enumerator; an access with
  \<open>BVHTREE_MAX_ITEM\<close> is outside the array. The mutex is the flag \<open>mutex_locked\<close>.
\<close>

record BVHCache =
  items :: "BVHCacheType \<Rightarrow> BVHCacheItem"
  mutex_locked :: bool

text \<open>\<^verbatim>\<open>MEM_cnew\<close> zero-initialises the cache; \<^verbatim>\<open>BLI_mutex_init\<close> leaves the mutex unlocked.\<close>

definition bvhcache_init :: BVHCache where
  "bvhcache_init =
     \<lparr>items = (\<lambda>_. \<lparr>is_filled = False, item_tree = None\<rparr>), mutex_locked = False\<rparr>"

text \<open>
  \<^verbatim>\<open>bvhcache_find(bvh_cache_p, type, r_tree, r_locked, mesh_eval_mutex)\<close>. The arguments are
  the content of \<^verbatim>\<open>*bvh_cache_p\<close>, the type, the content of \<^verbatim>\<open>*r_tree\<close> before the call and
  whether \<^verbatim>\<open>r_locked\<close> is given. The result is the return value, \<^verbatim>\<open>*bvh_cache_p\<close>, \<^verbatim>\<open>*r_tree\<close>
  and \<^verbatim>\<open>*r_locked\<close> after the call. The guard on \<^verbatim>\<open>mesh_eval_mutex\<close> is taken and released
  inside the call and leaves no trace in a sequential run. Locking a mutex that is held
  never returns in a sequential run: the error \<open>Deadlock\<close>.
\<close>

function bvhcache_find ::
  "BVHCache option \<Rightarrow> BVHCacheType \<Rightarrow> tree_ptr \<Rightarrow> bool \<Rightarrow>
   error + (bool \<times> BVHCache option \<times> tree_ptr \<times> bool)" where
  "bvhcache_find bvh_cache_p type r_tree do_lock =
     (if bvh_cache_p = None \<and> \<not> do_lock then Inr (False, None, r_tree, False)
      else
        let bvh_cache = (case bvh_cache_p of None \<Rightarrow> bvhcache_init | Some c \<Rightarrow> c) in
        if type = BVHTREE_MAX_ITEM then Inl OutOfBounds
        else if is_filled (items bvh_cache type)
        then Inr (True, Some bvh_cache, item_tree (items bvh_cache type), False)
        else if do_lock then
          (if mutex_locked bvh_cache then Inl Deadlock
           else
             (case bvhcache_find (Some (bvh_cache\<lparr>mutex_locked := True\<rparr>)) type r_tree False of
                Inl e \<Rightarrow> Inl e
              | Inr (in_cache, p, r_tree', _) \<Rightarrow>
                  if in_cache
                  then Inr (True, map_option (\<lambda>c. c\<lparr>mutex_locked := False\<rparr>) p, r_tree', False)
                  else Inr (False, p, r_tree', True)))
        else Inr (False, Some bvh_cache, r_tree, False))"
  by pat_completeness auto
termination
  by (relation "measure (\<lambda>(p, t, r, do_lock). if do_lock then 1 else 0)") auto

declare bvhcache_find.simps [simp del]

definition bvhcache_unlock :: "BVHCache \<Rightarrow> bool \<Rightarrow> BVHCache" where
  "bvhcache_unlock bvh_cache lock_started =
     (if lock_started then bvh_cache\<lparr>mutex_locked := False\<rparr> else bvh_cache)"

text \<open>The loop of \<^verbatim>\<open>bvhcache_has_tree\<close> over the slots, returning at the first match.\<close>

fun has_tree_loop :: "(BVHCacheType \<Rightarrow> BVHCacheItem) \<Rightarrow> tree_ptr \<Rightarrow> BVHCacheType list \<Rightarrow> bool" where
  "has_tree_loop its tree [] = False"
| "has_tree_loop its tree (i # is) =
     (if item_tree (its i) = tree then True else has_tree_loop its tree is)"

definition bvhcache_has_tree :: "BVHCache option \<Rightarrow> tree_ptr \<Rightarrow> bool" where
  "bvhcache_has_tree bvh_cache tree =
     (case bvh_cache of
        None \<Rightarrow> False
      | Some c \<Rightarrow> has_tree_loop (items c) tree slot_types)"

definition bvhcache_insert :: "BVHCache \<Rightarrow> tree_ptr \<Rightarrow> BVHCacheType \<Rightarrow> error + BVHCache" where
  "bvhcache_insert bvh_cache tree type =
     (if type = BVHTREE_MAX_ITEM then Inl OutOfBounds
      else if is_filled (items bvh_cache type) then Inl AssertFailed
      else Inr (bvh_cache\<lparr>items := (items bvh_cache)
                  (type := \<lparr>is_filled = True, item_tree = tree\<rparr>)\<rparr>))"

subsection \<open>The operations of a cache's life\<close>

text \<open>
  A cache lives from \<open>bvhcache_init\<close> to \<^verbatim>\<open>bvhcache_free\<close>. In between, the only functions
  that receive it are the four below (\<^verbatim>\<open>bvhcache_has_tree\<close> takes it as a pointer to
  \<^verbatim>\<open>const\<close> and only reads it); a run applies a sequence of them and stops at the first
  error.
\<close>

datatype cache_op =
    OpFind BVHCacheType tree_ptr bool
  | OpInsert tree_ptr BVHCacheType
  | OpUnlock bool
  | OpHasTree tree_ptr

fun bvhcache_step :: "BVHCache \<Rightarrow> cache_op \<Rightarrow> error + BVHCache" where
  "bvhcache_step c (OpFind type r_tree do_lock) =
     (case bvhcache_find (Some c) type r_tree do_lock of
        Inl e \<Rightarrow> Inl e
      | Inr (_, p, _, _) \<Rightarrow> (case p of None \<Rightarrow> Inl NullDeref | Some c' \<Rightarrow> Inr c'))"
| "bvhcache_step c (OpInsert tree type) = bvhcache_insert c tree type"
| "bvhcache_step c (OpUnlock lock_started) = Inr (bvhcache_unlock c lock_started)"
| "bvhcache_step c (OpHasTree tree) = Inr c"

fun bvhcache_run :: "BVHCache \<Rightarrow> cache_op list \<Rightarrow> error + BVHCache" where
  "bvhcache_run c [] = Inr c"
| "bvhcache_run c (op # ops) =
     (case bvhcache_step c op of Inl e \<Rightarrow> Inl e | Inr c' \<Rightarrow> bvhcache_run c' ops)"

fun is_insert_into :: "BVHCacheType \<Rightarrow> cache_op \<Rightarrow> bool" where
  "is_insert_into t (OpInsert tree type) = (type = t)"
| "is_insert_into t _ = False"

subsection \<open>Floats, vectors and arrays\<close>

text \<open>
  A \<^verbatim>\<open>float\<close> with the comparisons of C++: every comparison with a NaN is false. The
  arithmetic on floats belongs to \<^verbatim>\<open>BLI_math\<close> and is a parameter where it is used.
\<close>

datatype float = Fin real | PInf | NInf | NaN

fun float_lt :: "float \<Rightarrow> float \<Rightarrow> bool" where
  "float_lt (Fin a) (Fin b) = (a < b)"
| "float_lt (Fin a) PInf = True"
| "float_lt NInf (Fin b) = True"
| "float_lt NInf PInf = True"
| "float_lt _ _ = False"

fun float_ge :: "float \<Rightarrow> float \<Rightarrow> bool" where
  "float_ge (Fin a) (Fin b) = (b \<le> a)"
| "float_ge PInf (Fin b) = True"
| "float_ge PInf PInf = True"
| "float_ge PInf NInf = True"
| "float_ge (Fin a) NInf = True"
| "float_ge NInf NInf = True"
| "float_ge _ _ = False"

fun float_eq :: "float \<Rightarrow> float \<Rightarrow> bool" where
  "float_eq (Fin a) (Fin b) = (a = b)"
| "float_eq PInf PInf = True"
| "float_eq NInf NInf = True"
| "float_eq _ _ = False"

type_synonym float3 = "float \<times> float \<times> float"

text \<open>
  A read \<^verbatim>\<open>p[i]\<close> through a raw pointer to an array: \<open>None\<close> is the null pointer, and a read
  outside the array is an error.
\<close>

definition ptr_read :: "'a list option \<Rightarrow> int \<Rightarrow> error + 'a" where
  "ptr_read p i =
     (case p of
        None \<Rightarrow> Inl NullDeref
      | Some xs \<Rightarrow> if 0 \<le> i \<and> i < int (length xs) then Inr (xs ! nat i) else Inl OutOfBounds)"

text \<open>
  Modelled from the spec: \<^verbatim>\<open>BitSpan\<close> and \<^verbatim>\<open>BitVector\<close> of \<^verbatim>\<open>BLI_bit_vector.hh\<close> are not
  in these sources. A mask is an ordered sequence of bits, one for each candidate, and empty
  when absent; an index outside it (and a negative size) is a programming error, a failed
  assertion.
\<close>

definition bit_get :: "bool list \<Rightarrow> int \<Rightarrow> error + bool" where
  "bit_get bits i =
     (if 0 \<le> i \<and> i < int (length bits) then Inr (bits ! nat i) else Inl AssertFailed)"

definition bit_put :: "bool list \<Rightarrow> int \<Rightarrow> bool \<Rightarrow> error + bool list" where
  "bit_put bits i b =
     (if 0 \<le> i \<and> i < int (length bits) then Inr (bits[nat i := b]) else Inl AssertFailed)"

text \<open>
  Modelled from the spec: the macro \<^verbatim>\<open>IN_RANGE_INCL\<close> is not in these sources; the count of
  active bits must lie in \<open>[0, candidate_count]\<close>.
\<close>

definition IN_RANGE_INCL :: "int \<Rightarrow> int \<Rightarrow> int \<Rightarrow> bool" where
  "IN_RANGE_INCL a b c = (b \<le> a \<and> a \<le> c)"

subsection \<open>The BVH tree library\<close>

text \<open>
  Modelled from the spec: the BVH tree (\<^verbatim>\<open>BLI_bvhtree_new\<close>, \<^verbatim>\<open>BLI_bvhtree_insert\<close>,
  \<^verbatim>\<open>BLI_bvhtree_balance\<close>, \<^verbatim>\<open>BLI_bvhtree_get_len\<close>, \<^verbatim>\<open>BLI_bvhtree_free\<close> of
  \<^verbatim>\<open>BLI_kdopbvh\<close>) is outside these sources. The spec gives it as a capability: a hierarchy
  allocated for a number of insertions, with an epsilon, a branching factor and an axis count;
  it takes primitives, each a set of points tagged with an index; it is balanced once; a failed
  allocation is the null tree. A tree is an object in a store of trees; the store counts the
  insertions. \<open>alloc_plan\<close> says which of the coming allocations fail (\<open>False\<close>); when it
  is used up, allocations succeed.
\<close>

record BVHTree =
  bvh_maxsize :: int
  bvh_epsilon :: float
  bvh_tree_type :: int
  bvh_axis :: int
  bvh_leafs :: "(int \<times> float3 list) list"
  bvh_balanced :: bool

record bvh_world =
  trees :: "nat \<Rightarrow> BVHTree option"
  next_addr :: nat
  alloc_plan :: "bool list"
  insert_count :: nat

definition BLI_bvhtree_new :: "bvh_world \<Rightarrow> int \<Rightarrow> float \<Rightarrow> int \<Rightarrow> int \<Rightarrow> tree_ptr \<times> bvh_world" where
  "BLI_bvhtree_new w maxsize eps ttype ax =
     (if alloc_plan w \<noteq> [] \<and> \<not> hd (alloc_plan w)
      then (None, w\<lparr>alloc_plan := tl (alloc_plan w)\<rparr>)
      else
        (Some (next_addr w),
         w\<lparr>trees := (trees w)(next_addr w :=
              Some \<lparr>bvh_maxsize = maxsize, bvh_epsilon = eps, bvh_tree_type = ttype,
                    bvh_axis = ax, bvh_leafs = [], bvh_balanced = False\<rparr>),
           next_addr := Suc (next_addr w),
           alloc_plan := tl (alloc_plan w)\<rparr>))"

definition BLI_bvhtree_insert ::
  "bvh_world \<Rightarrow> nat \<Rightarrow> int \<Rightarrow> float3 list \<Rightarrow> nat \<Rightarrow> error + bvh_world" where
  "BLI_bvhtree_insert w tree idx co numpoints =
     (case trees w tree of
        None \<Rightarrow> Inl InvalidTree
      | Some t \<Rightarrow>
          if bvh_maxsize t \<le> int (length (bvh_leafs t)) then Inl AssertFailed
          else Inr (w\<lparr>trees := (trees w)(tree :=
                        Some (t\<lparr>bvh_leafs := bvh_leafs t @ [(idx, take numpoints co)]\<rparr>)),
                      insert_count := Suc (insert_count w)\<rparr>))"

definition BLI_bvhtree_get_len :: "bvh_world \<Rightarrow> nat \<Rightarrow> int" where
  "BLI_bvhtree_get_len w tree =
     (case trees w tree of None \<Rightarrow> 0 | Some t \<Rightarrow> int (length (bvh_leafs t)))"

definition BLI_bvhtree_balance :: "bvh_world \<Rightarrow> nat \<Rightarrow> bvh_world" where
  "BLI_bvhtree_balance w tree =
     (case trees w tree of
        None \<Rightarrow> w
      | Some t \<Rightarrow> w\<lparr>trees := (trees w)(tree := Some (t\<lparr>bvh_balanced := True\<rparr>))\<rparr>)"

definition BLI_bvhtree_free :: "bvh_world \<Rightarrow> tree_ptr \<Rightarrow> bvh_world" where
  "BLI_bvhtree_free w tree =
     (case tree of None \<Rightarrow> w | Some a \<Rightarrow> w\<lparr>trees := (trees w)(a := None)\<rparr>)"

text \<open>
  \<^verbatim>\<open>bvhtree_balance(tree, isolate)\<close>: \<^verbatim>\<open>BLI_task_isolate\<close> runs the same balancing, apart from
  other scheduled work.
\<close>

definition bvhtree_balance :: "bvh_world \<Rightarrow> tree_ptr \<Rightarrow> bool \<Rightarrow> bvh_world" where
  "bvhtree_balance w tree isolate =
     (case tree of
        None \<Rightarrow> w
      | Some a \<Rightarrow> if isolate then BLI_bvhtree_balance w a else BLI_bvhtree_balance w a)"

text \<open>
  \<^verbatim>\<open>bvhcache_free\<close>: every slot's tree is freed and the slot's pointer cleared; then the
  cache itself is freed, so only the store of trees remains.
\<close>

fun bvhcache_free_loop :: "bvh_world \<Rightarrow> (BVHCacheType \<Rightarrow> BVHCacheItem) \<Rightarrow> BVHCacheType list \<Rightarrow> bvh_world" where
  "bvhcache_free_loop w its [] = w"
| "bvhcache_free_loop w its (i # is) =
     bvhcache_free_loop (BLI_bvhtree_free w (item_tree (its i)))
       (its(i := (its i)\<lparr>item_tree := None\<rparr>)) is"

definition bvhcache_free :: "bvh_world \<Rightarrow> BVHCache \<Rightarrow> bvh_world" where
  "bvhcache_free w bvh_cache = bvhcache_free_loop w (items bvh_cache) slot_types"

subsection \<open>Mesh data\<close>

text \<open>
  Modelled from the spec: the structures of \<^verbatim>\<open>DNA_meshdata_types.h\<close> and \<^verbatim>\<open>DNA_mesh_types.h\<close>
  are not in these sources. The records hold the fields that the file reads: the endpoint
  indices of an edge, the three or four vertex indices of a face (a fourth index of zero is a
  triangle), the vertex index of a loop, the three loop indices of a loop-triangle, and the
  loop range of a polygon.
\<close>

record MEdge =
  ed_v1 :: nat
  ed_v2 :: nat

record MFace =
  f_v1 :: nat
  f_v2 :: nat
  f_v3 :: nat
  f_v4 :: nat

record MLoop =
  loop_v :: nat

record MLoopTri =
  tri0 :: nat
  tri1 :: nat
  tri2 :: nat

record MPoly =
  loopstart :: int
  totloop :: int

text \<open>
  Modelled from the spec: the macro \<^verbatim>\<open>ME_POLY_TRI_TOT\<close> of \<^verbatim>\<open>DNA_meshdata_types.h\<close> is not
  in these sources; it is the number of triangles of a polygon's tessellation, two less than
  its corners.
\<close>

definition ME_POLY_TRI_TOT :: "MPoly \<Rightarrow> int" where
  "ME_POLY_TRI_TOT mp = totloop mp - 2"

text \<open>
  Modelled from the spec: \<^verbatim>\<open>VArray\<close> of \<^verbatim>\<open>BLI_virtual_array.hh\<close> is not in these sources. A
  virtual array is one value for every index, or a stored array; \<^verbatim>\<open>operator[]\<close> asserts
  that the index is inside.
\<close>

datatype 'a VArray = VArray_Single 'a nat | VArray_Span "'a list"

fun is_single :: "'a VArray \<Rightarrow> bool" where
  "is_single (VArray_Single v n) = True"
| "is_single (VArray_Span xs) = False"

fun get_internal_single :: "'a VArray \<Rightarrow> error + 'a" where
  "get_internal_single (VArray_Single v n) = Inr v"
| "get_internal_single (VArray_Span xs) = Inl AssertFailed"

fun varray_get :: "'a VArray \<Rightarrow> int \<Rightarrow> error + 'a" where
  "varray_get (VArray_Single v n) i = (if 0 \<le> i \<and> i < int n then Inr v else Inl AssertFailed)"
| "varray_get (VArray_Span xs) i =
     (if 0 \<le> i \<and> i < int (length xs) then Inr (xs ! nat i) else Inl AssertFailed)"

record LooseEdgeCache =
  is_loose_bits :: "bool list"
  loose_count :: int

text \<open>
  Modelled from the spec: the mesh, as far as the file reads it. The spans \<^verbatim>\<open>vert_positions()\<close>, \<^verbatim>\<open>edges()\<close>,
  \<^verbatim>\<open>loops()\<close>, \<^verbatim>\<open>polys()\<close> have the sizes \<^verbatim>\<open>totvert\<close>, \<^verbatim>\<open>totedge\<close>, \<^verbatim>\<open>totloop\<close>, \<^verbatim>\<open>totpoly\<close>.
  \<open>mesh_mface\<close> is the layer \<^verbatim>\<open>CD_MFACE\<close> of \<^verbatim>\<open>fdata\<close> (null when the mesh has none),
  \<open>mesh_hide_poly\<close> the virtual array that the attribute \<^verbatim>\<open>.hide_poly\<close> reads as
  (\<open>None\<close> when the mesh has none).
\<close>

record Mesh =
  mesh_vert_positions :: "float3 list"
  mesh_edges :: "MEdge list"
  mesh_loops :: "MLoop list"
  mesh_polys :: "MPoly list"
  mesh_looptris :: "MLoopTri list"
  mesh_mface :: "MFace list option"
  mesh_totface :: int
  mesh_hide_poly :: "bool VArray option"
  mesh_loose_edges :: LooseEdgeCache

definition totvert :: "Mesh \<Rightarrow> int" where
  "totvert mesh = int (length (mesh_vert_positions mesh))"

definition totedge :: "Mesh \<Rightarrow> int" where
  "totedge mesh = int (length (mesh_edges mesh))"

definition totpoly :: "Mesh \<Rightarrow> int" where
  "totpoly mesh = int (length (mesh_polys mesh))"

text \<open>
  Modelled from the spec: \<^verbatim>\<open>lookup_or_default\<close> of the attribute API is not in these
  sources; it gives the stored attribute, and the default for every element when the
  attribute is absent.
\<close>

definition lookup_or_default_hide_poly :: "Mesh \<Rightarrow> bool \<Rightarrow> bool VArray" where
  "lookup_or_default_hide_poly mesh default_value =
     (case mesh_hide_poly mesh of
        None \<Rightarrow> VArray_Single default_value (length (mesh_polys mesh))
      | Some va \<Rightarrow> va)"

subsection \<open>Edit-mesh data\<close>

text \<open>
  Modelled from the spec: the structures of the edit-mesh (\<^verbatim>\<open>BMVert\<close>, \<^verbatim>\<open>BMEdge\<close>, \<^verbatim>\<open>BMLoop\<close>,
  \<^verbatim>\<open>BMesh\<close>, \<^verbatim>\<open>BMEditMesh\<close>) are not in these sources. A vertex has its position; an edge and
  a loop point to their vertices, which the records hold by value since nothing here writes
  to them.
\<close>

record BMVert =
  bm_co :: float3

record BMEdge =
  bm_e_v1 :: BMVert
  bm_e_v2 :: BMVert

record BMLoop =
  bm_l_v :: BMVert

text \<open>
  Modelled from the spec: the vertex table and the edges of a \<^verbatim>\<open>BMesh\<close>; \<^verbatim>\<open>totvert\<close> and \<^verbatim>\<open>totedge\<close> are their
  sizes (\<^verbatim>\<open>BM_mesh_elem_table_ensure\<close> makes the table match).
\<close>

record BMesh =
  bm_verts :: "BMVert list"
  bm_edges :: "BMEdge list"

definition bm_totvert :: "BMesh \<Rightarrow> int" where
  "bm_totvert bm = int (length (bm_verts bm))"

definition bm_totedge :: "BMesh \<Rightarrow> int" where
  "bm_totedge bm = int (length (bm_edges bm))"

record BMEditMesh =
  em_bm :: BMesh
  em_tottri :: int
  em_looptris :: "(BMLoop \<times> BMLoop \<times> BMLoop) list"

text \<open>
  Modelled from the spec: \<^verbatim>\<open>BM_vert_at_index\<close> is not in these sources; it reads the vertex
  table and asserts that the index is inside it.
\<close>

definition BM_vert_at_index :: "BMesh \<Rightarrow> int \<Rightarrow> error + BMVert" where
  "BM_vert_at_index bm i =
     (if 0 \<le> i \<and> i < bm_totvert bm then Inr (bm_verts bm ! nat i) else Inl AssertFailed)"

subsection \<open>Query bundles\<close>

text \<open>
  Modelled from the spec: the bundles \<^verbatim>\<open>BVHTreeFromMesh\<close> and \<^verbatim>\<open>BVHTreeFromEditMesh\<close> are
  declared in \<^verbatim>\<open>BKE_bvhutils.h\<close>, which is not in these sources: the tree, the flag
  \<^verbatim>\<open>cached\<close>, the arrays the callbacks read, and the two callbacks. A callback pointer is
  the name of the function it points to, or null.
\<close>

datatype nearest_cb =
    CB_mesh_edges_nearest_point
  | CB_mesh_faces_nearest_point
  | CB_mesh_looptri_nearest_point
  | CB_editmesh_looptri_nearest_point

datatype raycast_cb =
    CB_mesh_verts_spherecast
  | CB_mesh_edges_spherecast
  | CB_mesh_faces_spherecast
  | CB_mesh_looptri_spherecast
  | CB_editmesh_verts_spherecast
  | CB_editmesh_looptri_spherecast

record BVHTreeFromMesh =
  data_tree :: tree_ptr
  nearest_callback :: "nearest_cb option"
  raycast_callback :: "raycast_cb option"
  data_vert_positions :: "float3 list option"
  data_edge :: "MEdge list option"
  data_face :: "MFace list option"
  data_loop :: "MLoop list option"
  data_looptri :: "MLoopTri list option"
  cached :: bool

record BVHTreeFromEditMesh =
  em_data_tree :: tree_ptr
  em_nearest_callback :: "nearest_cb option"
  em_raycast_callback :: "raycast_cb option"
  em_data_em :: "BMEditMesh option"
  em_cached :: bool

text \<open>\<^verbatim>\<open>memset(data, 0, sizeof(*data))\<close>.\<close>

definition zero_BVHTreeFromMesh :: BVHTreeFromMesh where
  "zero_BVHTreeFromMesh =
     \<lparr>data_tree = None, nearest_callback = None, raycast_callback = None,
      data_vert_positions = None, data_edge = None, data_face = None, data_loop = None,
      data_looptri = None, cached = False\<rparr>"

definition zero_BVHTreeFromEditMesh :: BVHTreeFromEditMesh where
  "zero_BVHTreeFromEditMesh =
     \<lparr>em_data_tree = None, em_nearest_callback = None, em_raycast_callback = None,
      em_data_em = None, em_cached = False\<rparr>"

definition bvhtree_from_mesh_setup_data ::
  "tree_ptr \<Rightarrow> BVHCacheType \<Rightarrow> float3 list option \<Rightarrow> MEdge list option \<Rightarrow> MFace list option \<Rightarrow>
   MLoop list option \<Rightarrow> MLoopTri list option \<Rightarrow> error + BVHTreeFromMesh" where
  "bvhtree_from_mesh_setup_data tree bvh_cache_type positions edge face loop looptris =
     (let r_data = zero_BVHTreeFromMesh
            \<lparr>data_tree := tree, data_vert_positions := positions, data_edge := edge,
             data_face := face, data_loop := loop, data_looptri := looptris\<rparr>
      in
        if bvh_cache_type = BVHTREE_FROM_VERTS \<or> bvh_cache_type = BVHTREE_FROM_LOOSEVERTS
        then Inr (r_data\<lparr>nearest_callback := None,
                          raycast_callback := Some CB_mesh_verts_spherecast\<rparr>)
        else if bvh_cache_type = BVHTREE_FROM_EDGES \<or> bvh_cache_type = BVHTREE_FROM_LOOSEEDGES
        then Inr (r_data\<lparr>nearest_callback := Some CB_mesh_edges_nearest_point,
                          raycast_callback := Some CB_mesh_edges_spherecast\<rparr>)
        else if bvh_cache_type = BVHTREE_FROM_FACES
        then Inr (r_data\<lparr>nearest_callback := Some CB_mesh_faces_nearest_point,
                          raycast_callback := Some CB_mesh_faces_spherecast\<rparr>)
        else if bvh_cache_type = BVHTREE_FROM_LOOPTRI
                \<or> bvh_cache_type = BVHTREE_FROM_LOOPTRI_NO_HIDDEN
        then Inr (r_data\<lparr>nearest_callback := Some CB_mesh_looptri_nearest_point,
                          raycast_callback := Some CB_mesh_looptri_spherecast\<rparr>)
        else Inl AssertFailed)"

definition bvhtree_from_editmesh_setup_data ::
  "tree_ptr \<Rightarrow> BVHCacheType \<Rightarrow> BMEditMesh \<Rightarrow> error + BVHTreeFromEditMesh" where
  "bvhtree_from_editmesh_setup_data tree bvh_cache_type em =
     (let r_data = zero_BVHTreeFromEditMesh\<lparr>em_data_tree := tree, em_data_em := Some em\<rparr>
      in
        if bvh_cache_type = BVHTREE_FROM_EM_VERTS
        then Inr (r_data\<lparr>em_nearest_callback := None,
                          em_raycast_callback := Some CB_editmesh_verts_spherecast\<rparr>)
        else if bvh_cache_type = BVHTREE_FROM_EM_EDGES
        then Inr (r_data\<lparr>em_nearest_callback := None, em_raycast_callback := None\<rparr>)
        else if bvh_cache_type = BVHTREE_FROM_EM_LOOPTRI
        then Inr (r_data\<lparr>em_nearest_callback := Some CB_editmesh_looptri_nearest_point,
                          em_raycast_callback := Some CB_editmesh_looptri_spherecast\<rparr>)
        else Inl AssertFailed)"

subsection \<open>Builders\<close>

lemma ebind_cong [fundef_cong]:
  "m = m' \<Longrightarrow> (\<And>x. m' = Inr x \<Longrightarrow> f x = f' x) \<Longrightarrow> ebind m f = ebind m' f'"
  by (cases m') (simp_all add: ebind_def)

text \<open>
  The insertion loop of the builders. Each builder's loop runs over the candidates
  \<open>0, 1, ...\<close> in order, skips a candidate whose bit of a non-empty mask is clear, fetches the
  candidate's points (the argument \<open>prim\<close>, which differs from builder to builder) and calls
  \<^verbatim>\<open>BLI_bvhtree_insert(tree, i, co, numpoints)\<close> with the loop's own index \<open>i\<close>.
\<close>

fun bvh_insert_loop ::
  "(int \<Rightarrow> error + float3 list \<times> nat) \<Rightarrow> bvh_world \<Rightarrow> nat \<Rightarrow> bool list \<Rightarrow> nat list \<Rightarrow>
   error + bvh_world" where
  "bvh_insert_loop prim w tree elems_mask [] = Inr w"
| "bvh_insert_loop prim w tree elems_mask (i # is) =
     ebind (if elems_mask \<noteq> [] then bit_get elems_mask (int i) else Inr True) (\<lambda>active.
       if \<not> active then bvh_insert_loop prim w tree elems_mask is
       else
         ebind (prim (int i)) (\<lambda>(co, numpoints).
         ebind (BLI_bvhtree_insert w tree (int i) co numpoints) (\<lambda>w'.
           bvh_insert_loop prim w' tree elems_mask is)))"

definition mesh_vert_prim :: "float3 list option \<Rightarrow> int \<Rightarrow> error + float3 list \<times> nat" where
  "mesh_vert_prim positions i = ebind (ptr_read positions i) (\<lambda>co. Inr ([co], 1))"

definition mesh_edge_prim ::
  "float3 list option \<Rightarrow> MEdge list option \<Rightarrow> int \<Rightarrow> error + float3 list \<times> nat" where
  "mesh_edge_prim positions edge i =
     ebind (ptr_read edge i) (\<lambda>e.
     ebind (ptr_read positions (int (ed_v1 e))) (\<lambda>co0.
     ebind (ptr_read positions (int (ed_v2 e))) (\<lambda>co1.
       Inr ([co0, co1], 2))))"

definition mesh_face_prim ::
  "float3 list option \<Rightarrow> MFace list option \<Rightarrow> int \<Rightarrow> error + float3 list \<times> nat" where
  "mesh_face_prim positions face i =
     ebind (ptr_read face i) (\<lambda>f.
     ebind (ptr_read positions (int (f_v1 f))) (\<lambda>co0.
     ebind (ptr_read positions (int (f_v2 f))) (\<lambda>co1.
     ebind (ptr_read positions (int (f_v3 f))) (\<lambda>co2.
       if f_v4 f \<noteq> 0
       then ebind (ptr_read positions (int (f_v4 f))) (\<lambda>co3. Inr ([co0, co1, co2, co3], 4))
       else Inr ([co0, co1, co2], 3)))))"

definition mesh_looptri_prim ::
  "float3 list option \<Rightarrow> MLoop list option \<Rightarrow> MLoopTri list \<Rightarrow> int \<Rightarrow>
   error + float3 list \<times> nat" where
  "mesh_looptri_prim positions mloop looptris i =
     ebind (ptr_read (Some looptris) i) (\<lambda>lt.
     ebind (ptr_read mloop (int (tri0 lt))) (\<lambda>l0.
     ebind (ptr_read positions (int (loop_v l0))) (\<lambda>co0.
     ebind (ptr_read mloop (int (tri1 lt))) (\<lambda>l1.
     ebind (ptr_read positions (int (loop_v l1))) (\<lambda>co1.
     ebind (ptr_read mloop (int (tri2 lt))) (\<lambda>l2.
     ebind (ptr_read positions (int (loop_v l2))) (\<lambda>co2.
       Inr ([co0, co1, co2], 3))))))))"

definition editmesh_vert_prim :: "BMEditMesh \<Rightarrow> int \<Rightarrow> error + float3 list \<times> nat" where
  "editmesh_vert_prim em i = ebind (BM_vert_at_index (em_bm em) i) (\<lambda>eve. Inr ([bm_co eve], 1))"

definition editmesh_edge_prim :: "BMEditMesh \<Rightarrow> int \<Rightarrow> error + float3 list \<times> nat" where
  "editmesh_edge_prim em i =
     ebind (ptr_read (Some (bm_edges (em_bm em))) i) (\<lambda>eed.
       Inr ([bm_co (bm_e_v1 eed), bm_co (bm_e_v2 eed)], 2))"

definition editmesh_looptri_prim :: "BMEditMesh \<Rightarrow> int \<Rightarrow> error + float3 list \<times> nat" where
  "editmesh_looptri_prim em i =
     ebind (ptr_read (Some (em_looptris em)) i) (\<lambda>(l0, l1, l2).
       Inr ([bm_co (bm_l_v l0), bm_co (bm_l_v l1), bm_co (bm_l_v l2)], 3))"

text \<open>The common end of the builders that assert the number of leaves.\<close>

definition assert_len :: "bvh_world \<Rightarrow> nat \<Rightarrow> int \<Rightarrow> error + tree_ptr \<times> bvh_world" where
  "assert_len w tree num_active =
     ebind (BLI_assert (BLI_bvhtree_get_len w tree = num_active)) (\<lambda>_. Inr (Some tree, w))"

definition bvhtree_from_editmesh_verts_create_tree ::
  "bvh_world \<Rightarrow> float \<Rightarrow> int \<Rightarrow> int \<Rightarrow> BMEditMesh \<Rightarrow> bool list \<Rightarrow> int \<Rightarrow>
   error + tree_ptr \<times> bvh_world" where
  "bvhtree_from_editmesh_verts_create_tree w eps ttype ax em verts_mask verts_num_active =
     (let verts_num = bm_totvert (em_bm em) in
      ebind (if verts_mask \<noteq> [] then BLI_assert (IN_RANGE_INCL verts_num_active 0 verts_num)
             else Inr ()) (\<lambda>_.
      let verts_num_active = (if verts_mask \<noteq> [] then verts_num_active else verts_num) in
      case BLI_bvhtree_new w verts_num_active eps ttype ax of
        (None, w1) \<Rightarrow> Inr (None, w1)
      | (Some tree, w1) \<Rightarrow>
          ebind (bvh_insert_loop (editmesh_vert_prim em) w1 tree verts_mask [0..<nat verts_num])
            (\<lambda>w2. assert_len w2 tree verts_num_active)))"

definition bvhtree_from_mesh_verts_create_tree ::
  "bvh_world \<Rightarrow> float \<Rightarrow> int \<Rightarrow> int \<Rightarrow> float3 list option \<Rightarrow> int \<Rightarrow> bool list \<Rightarrow> int \<Rightarrow>
   error + tree_ptr \<times> bvh_world" where
  "bvhtree_from_mesh_verts_create_tree w eps ttype ax positions verts_num verts_mask
       verts_num_active =
     ebind (if verts_mask \<noteq> [] then BLI_assert (IN_RANGE_INCL verts_num_active 0 verts_num)
            else Inr ()) (\<lambda>_.
     let verts_num_active = (if verts_mask \<noteq> [] then verts_num_active else verts_num) in
     if verts_num_active = 0 then Inr (None, w)
     else
       case BLI_bvhtree_new w verts_num_active eps ttype ax of
         (None, w1) \<Rightarrow> Inr (None, w1)
       | (Some tree, w1) \<Rightarrow>
           ebind (bvh_insert_loop (mesh_vert_prim positions) w1 tree verts_mask
                    [0..<nat verts_num])
             (\<lambda>w2. assert_len w2 tree verts_num_active))"

definition bvhtree_from_editmesh_edges_create_tree ::
  "bvh_world \<Rightarrow> float \<Rightarrow> int \<Rightarrow> int \<Rightarrow> BMEditMesh \<Rightarrow> bool list \<Rightarrow> int \<Rightarrow>
   error + tree_ptr \<times> bvh_world" where
  "bvhtree_from_editmesh_edges_create_tree w eps ttype ax em edges_mask edges_num_active =
     (let edges_num = bm_totedge (em_bm em) in
      ebind (if edges_mask \<noteq> [] then BLI_assert (IN_RANGE_INCL edges_num_active 0 edges_num)
             else Inr ()) (\<lambda>_.
      let edges_num_active = (if edges_mask \<noteq> [] then edges_num_active else edges_num) in
      case BLI_bvhtree_new w edges_num_active eps ttype ax of
        (None, w1) \<Rightarrow> Inr (None, w1)
      | (Some tree, w1) \<Rightarrow>
          ebind (bvh_insert_loop (editmesh_edge_prim em) w1 tree edges_mask
                   [0..<length (bm_edges (em_bm em))])
            (\<lambda>w2. assert_len w2 tree edges_num_active)))"

text \<open>The mesh edge builder ends without the assertion on the number of leaves.\<close>

definition bvhtree_from_mesh_edges_create_tree ::
  "bvh_world \<Rightarrow> float3 list option \<Rightarrow> MEdge list option \<Rightarrow> int \<Rightarrow> bool list \<Rightarrow> int \<Rightarrow>
   float \<Rightarrow> int \<Rightarrow> int \<Rightarrow> error + tree_ptr \<times> bvh_world" where
  "bvhtree_from_mesh_edges_create_tree w positions edge edge_num edges_mask edges_num_active
       eps ttype ax =
     ebind (if edges_mask \<noteq> [] then BLI_assert (IN_RANGE_INCL edges_num_active 0 edge_num)
            else Inr ()) (\<lambda>_.
     let edges_num_active = (if edges_mask \<noteq> [] then edges_num_active else edge_num) in
     if edges_num_active = 0 then Inr (None, w)
     else
       case BLI_bvhtree_new w edges_num_active eps ttype ax of
         (None, w1) \<Rightarrow> Inr (None, w1)
       | (Some tree, w1) \<Rightarrow>
           ebind (bvh_insert_loop (mesh_edge_prim positions edge) w1 tree edges_mask
                    [0..<nat edge_num])
             (\<lambda>w2. Inr (Some tree, w2)))"

definition bvhtree_from_mesh_faces_create_tree ::
  "bvh_world \<Rightarrow> float \<Rightarrow> int \<Rightarrow> int \<Rightarrow> float3 list option \<Rightarrow> MFace list option \<Rightarrow> int \<Rightarrow>
   bool list \<Rightarrow> int \<Rightarrow> error + tree_ptr \<times> bvh_world" where
  "bvhtree_from_mesh_faces_create_tree w eps ttype ax positions face faces_num faces_mask
       faces_num_active =
     (if faces_num = 0 then Inr (None, w)
      else
        ebind (if faces_mask \<noteq> [] then BLI_assert (IN_RANGE_INCL faces_num_active 0 faces_num)
               else Inr ()) (\<lambda>_.
        let faces_num_active = (if faces_mask \<noteq> [] then faces_num_active else faces_num) in
        case BLI_bvhtree_new w faces_num_active eps ttype ax of
          (None, w1) \<Rightarrow> Inr (None, w1)
        | (Some tree, w1) \<Rightarrow>
            ebind (if positions \<noteq> None \<and> face \<noteq> None
                   then bvh_insert_loop (mesh_face_prim positions face) w1 tree faces_mask
                          [0..<nat faces_num]
                   else Inr w1)
              (\<lambda>w2. assert_len w2 tree faces_num_active)))"

definition bvhtree_from_editmesh_looptri_create_tree ::
  "bvh_world \<Rightarrow> float \<Rightarrow> int \<Rightarrow> int \<Rightarrow> BMEditMesh \<Rightarrow> bool list \<Rightarrow> int \<Rightarrow>
   error + tree_ptr \<times> bvh_world" where
  "bvhtree_from_editmesh_looptri_create_tree w eps ttype ax em looptri_mask looptri_num_active =
     (let looptri_num = em_tottri em in
      if looptri_num = 0 then Inr (None, w)
      else
        ebind (if looptri_mask \<noteq> []
               then BLI_assert (IN_RANGE_INCL looptri_num_active 0 looptri_num)
               else Inr ()) (\<lambda>_.
        let looptri_num_active = (if looptri_mask \<noteq> [] then looptri_num_active else looptri_num)
        in
        case BLI_bvhtree_new w looptri_num_active eps ttype ax of
          (None, w1) \<Rightarrow> Inr (None, w1)
        | (Some tree, w1) \<Rightarrow>
            ebind (bvh_insert_loop (editmesh_looptri_prim em) w1 tree looptri_mask
                     [0..<nat looptri_num])
              (\<lambda>w2. assert_len w2 tree looptri_num_active)))"

definition bvhtree_from_mesh_looptri_create_tree ::
  "bvh_world \<Rightarrow> float \<Rightarrow> int \<Rightarrow> int \<Rightarrow> float3 list option \<Rightarrow> MLoop list option \<Rightarrow>
   MLoopTri list \<Rightarrow> bool list \<Rightarrow> int \<Rightarrow> error + tree_ptr \<times> bvh_world" where
  "bvhtree_from_mesh_looptri_create_tree w eps ttype ax positions mloop looptris looptri_mask
       looptri_num_active =
     ebind (if looptri_mask \<noteq> []
            then BLI_assert (IN_RANGE_INCL looptri_num_active 0 (int (length looptris)))
            else Inr ()) (\<lambda>_.
     let looptri_num_active =
           (if looptri_mask \<noteq> [] then looptri_num_active else int (length looptris)) in
     if looptri_num_active = 0 then Inr (None, w)
     else
       case BLI_bvhtree_new w looptri_num_active eps ttype ax of
         (None, w1) \<Rightarrow> Inr (None, w1)
       | (Some tree, w1) \<Rightarrow>
           ebind (if positions \<noteq> None \<and> looptris \<noteq> []
                  then bvh_insert_loop (mesh_looptri_prim positions mloop looptris) w1 tree
                         looptri_mask [0..<length looptris]
                  else Inr w1)
             (\<lambda>w2. assert_len w2 tree looptri_num_active))"

subsection \<open>Active-subset derivation\<close>

fun loose_verts_loop :: "bool list \<Rightarrow> int \<Rightarrow> MEdge list \<Rightarrow> error + bool list \<times> int" where
  "loose_verts_loop loose_verts_mask num_linked_verts [] =
     Inr (loose_verts_mask, num_linked_verts)"
| "loose_verts_loop loose_verts_mask num_linked_verts (edge # es) =
     ebind (bit_get loose_verts_mask (int (ed_v1 edge))) (\<lambda>b1.
     ebind (if b1 then bit_put loose_verts_mask (int (ed_v1 edge)) False
            else Inr loose_verts_mask) (\<lambda>mask1.
     let n1 = (if b1 then num_linked_verts + 1 else num_linked_verts) in
     ebind (bit_get mask1 (int (ed_v2 edge))) (\<lambda>b2.
     ebind (if b2 then bit_put mask1 (int (ed_v2 edge)) False else Inr mask1) (\<lambda>mask2.
     let n2 = (if b2 then n1 + 1 else n1) in
     loose_verts_loop mask2 n2 es))))"

text \<open>The result is the mask and \<^verbatim>\<open>*r_loose_vert_num\<close>.\<close>

definition loose_verts_map_get :: "MEdge list \<Rightarrow> int \<Rightarrow> error + bool list \<times> int" where
  "loose_verts_map_get edges verts_num =
     ebind (BLI_assert (0 \<le> verts_num)) (\<lambda>_.
     ebind (loose_verts_loop (replicate (nat verts_num) True) 0 edges)
       (\<lambda>(loose_verts_mask, num_linked_verts).
          Inr (loose_verts_mask, verts_num - num_linked_verts)))"

definition loose_edges_map_get :: "Mesh \<Rightarrow> bool list \<times> int" where
  "loose_edges_map_get mesh =
     (is_loose_bits (mesh_loose_edges mesh), loose_count (mesh_loose_edges mesh))"

text \<open>The inner loop of \<^verbatim>\<open>looptri_no_hidden_map_get\<close> over \<^verbatim>\<open>IndexRange(triangles_num)\<close>.\<close>

fun no_hidden_set_loop :: "bool list \<Rightarrow> int \<Rightarrow> int \<Rightarrow> nat \<Rightarrow> error + bool list \<times> int \<times> int" where
  "no_hidden_set_loop looptri_mask looptri_index looptri_no_hidden_len 0 =
     Inr (looptri_mask, looptri_index, looptri_no_hidden_len)"
| "no_hidden_set_loop looptri_mask looptri_index looptri_no_hidden_len (Suc k) =
     ebind (bit_put looptri_mask looptri_index True) (\<lambda>mask'.
       no_hidden_set_loop mask' (looptri_index + 1) (looptri_no_hidden_len + 1) k)"

text \<open>The outer loop over the polygons; \<open>i\<close> is the polygon's index.\<close>

fun no_hidden_poly_loop ::
  "bool VArray \<Rightarrow> bool list \<Rightarrow> int \<Rightarrow> int \<Rightarrow> int \<Rightarrow> MPoly list \<Rightarrow> error + bool list \<times> int" where
  "no_hidden_poly_loop hide_poly looptri_mask looptri_index looptri_no_hidden_len i [] =
     Inr (looptri_mask, looptri_no_hidden_len)"
| "no_hidden_poly_loop hide_poly looptri_mask looptri_index looptri_no_hidden_len i (p # ps) =
     (let triangles_num = ME_POLY_TRI_TOT p in
      ebind (varray_get hide_poly i) (\<lambda>hidden.
        if hidden
        then no_hidden_poly_loop hide_poly looptri_mask (looptri_index + triangles_num)
               looptri_no_hidden_len (i + 1) ps
        else
          ebind (BLI_assert (0 \<le> triangles_num)) (\<lambda>_.
          ebind (no_hidden_set_loop looptri_mask looptri_index looptri_no_hidden_len
                   (nat triangles_num)) (\<lambda>(mask', index', len').
            no_hidden_poly_loop hide_poly mask' index' len' (i + 1) ps))))"

text \<open>
  The last argument is \<^verbatim>\<open>*r_looptri_active_len\<close> before the call; the result is the mask and
  \<^verbatim>\<open>*r_looptri_active_len\<close> after the call. The early return leaves it as it was.
\<close>

definition looptri_no_hidden_map_get ::
  "MPoly list \<Rightarrow> bool VArray \<Rightarrow> int \<Rightarrow> int \<Rightarrow> error + bool list \<times> int" where
  "looptri_no_hidden_map_get polys hide_poly looptri_len r_looptri_active_len =
     (if is_single hide_poly \<and> get_internal_single hide_poly = Inr False
      then Inr ([], r_looptri_active_len)
      else
        ebind (BLI_assert (0 \<le> looptri_len)) (\<lambda>_.
          no_hidden_poly_loop hide_poly (replicate (nat looptri_len) False) 0 0 0 polys))"

subsection \<open>Acquiring a tree\<close>

text \<open>
  The \<^verbatim>\<open>switch\<close> of \<^verbatim>\<open>BKE_bvhtree_from_mesh_get\<close> that creates the tree; a case that falls
  through to the next one is written out with the builder it reaches.
\<close>

definition mesh_get_create_tree ::
  "bvh_world \<Rightarrow> Mesh \<Rightarrow> BVHCacheType \<Rightarrow> int \<Rightarrow> float3 list option \<Rightarrow> MLoopTri list \<Rightarrow>
   error + tree_ptr \<times> bvh_world" where
  "mesh_get_create_tree w mesh bvh_cache_type ttype positions looptris =
     (if bvh_cache_type = BVHTREE_FROM_LOOSEVERTS then
        ebind (loose_verts_map_get (mesh_edges mesh) (totvert mesh)) (\<lambda>(bits, mask_bits_act_len).
          bvhtree_from_mesh_verts_create_tree w (Fin 0) ttype 6 positions (totvert mesh)
            bits mask_bits_act_len)
      else if bvh_cache_type = BVHTREE_FROM_VERTS then
        bvhtree_from_mesh_verts_create_tree w (Fin 0) ttype 6 positions (totvert mesh) [] (- 1)
      else if bvh_cache_type = BVHTREE_FROM_LOOSEEDGES then
        (case loose_edges_map_get mesh of (bits, mask_bits_act_len) \<Rightarrow>
          bvhtree_from_mesh_edges_create_tree w positions (Some (mesh_edges mesh))
            (totedge mesh) bits mask_bits_act_len (Fin 0) ttype 6)
      else if bvh_cache_type = BVHTREE_FROM_EDGES then
        bvhtree_from_mesh_edges_create_tree w positions (Some (mesh_edges mesh))
          (totedge mesh) [] (- 1) (Fin 0) ttype 6
      else if bvh_cache_type = BVHTREE_FROM_FACES then
        ebind (BLI_assert (\<not> (mesh_totface mesh = 0 \<and> totpoly mesh \<noteq> 0))) (\<lambda>_.
          bvhtree_from_mesh_faces_create_tree w (Fin 0) ttype 6 positions (mesh_mface mesh)
            (mesh_totface mesh) [] (- 1))
      else if bvh_cache_type = BVHTREE_FROM_LOOPTRI_NO_HIDDEN then
        ebind (looptri_no_hidden_map_get (mesh_polys mesh)
                 (lookup_or_default_hide_poly mesh False) (int (length looptris)) (- 1))
          (\<lambda>(bits, mask_bits_act_len).
            bvhtree_from_mesh_looptri_create_tree w (Fin 0) ttype 6 positions
              (Some (mesh_loops mesh)) looptris bits mask_bits_act_len)
      else if bvh_cache_type = BVHTREE_FROM_LOOPTRI then
        bvhtree_from_mesh_looptri_create_tree w (Fin 0) ttype 6 positions
          (Some (mesh_loops mesh)) looptris [] (- 1)
      else Inl AssertFailed)"

text \<open>
  \<^verbatim>\<open>BKE_bvhtree_from_mesh_get(data, mesh, bvh_cache_type, tree_type)\<close>. The arguments are the
  store of trees, the content of \<^verbatim>\<open>mesh->runtime->bvh_cache\<close>, the mesh, the type and the
  tree type; the result is \<^verbatim>\<open>*data\<close> (the function returns \<^verbatim>\<open>data->tree\<close>), the content of
  \<^verbatim>\<open>mesh->runtime->bvh_cache\<close> and the store after the call.
\<close>

definition BKE_bvhtree_from_mesh_get ::
  "bvh_world \<Rightarrow> BVHCache option \<Rightarrow> Mesh \<Rightarrow> BVHCacheType \<Rightarrow> int \<Rightarrow>
   error + BVHTreeFromMesh \<times> BVHCache option \<times> bvh_world" where
  "BKE_bvhtree_from_mesh_get w bvh_cache_p mesh bvh_cache_type ttype =
     (let is_looptri = (bvh_cache_type = BVHTREE_FROM_LOOPTRI
                         \<or> bvh_cache_type = BVHTREE_FROM_LOOPTRI_NO_HIDDEN);
          looptris = (if is_looptri then mesh_looptris mesh else []);
          positions = Some (mesh_vert_positions mesh)
      in
      ebind (bvhtree_from_mesh_setup_data None bvh_cache_type positions (Some (mesh_edges mesh))
               (mesh_mface mesh) (Some (mesh_loops mesh))
               (if is_looptri then Some looptris else None)) (\<lambda>data0.
      ebind (bvhcache_find bvh_cache_p bvh_cache_type (data_tree data0) True)
        (\<lambda>(found, bvh_cache_p1, r_tree, lock_started).
      let data1 = data0\<lparr>data_tree := r_tree, cached := found\<rparr> in
      if cached data1
      then ebind (BLI_assert (lock_started = False)) (\<lambda>_. Inr (data1, bvh_cache_p1, w))
      else
        ebind (mesh_get_create_tree w mesh bvh_cache_type ttype positions looptris)
          (\<lambda>(tree, w1).
        let data2 = data1\<lparr>data_tree := tree\<rparr>;
            w2 = bvhtree_balance w1 (data_tree data2) lock_started
        in
        ebind (BLI_assert (cached data2 = False)) (\<lambda>_.
        let data3 = data2\<lparr>cached := True\<rparr> in
        case bvh_cache_p1 of
          None \<Rightarrow> Inl NullDeref
        | Some c \<Rightarrow>
            ebind (bvhcache_insert c (data_tree data3) bvh_cache_type) (\<lambda>c1.
              Inr (data3, Some (bvhcache_unlock c1 lock_started), w2)))))))"

definition editmesh_get_create_tree ::
  "bvh_world \<Rightarrow> BMEditMesh \<Rightarrow> BVHCacheType \<Rightarrow> int \<Rightarrow> error + tree_ptr \<times> bvh_world" where
  "editmesh_get_create_tree w em bvh_cache_type ttype =
     (if bvh_cache_type = BVHTREE_FROM_EM_VERTS then
        bvhtree_from_editmesh_verts_create_tree w (Fin 0) ttype 6 em [] (- 1)
      else if bvh_cache_type = BVHTREE_FROM_EM_EDGES then
        bvhtree_from_editmesh_edges_create_tree w (Fin 0) ttype 6 em [] (- 1)
      else if bvh_cache_type = BVHTREE_FROM_EM_LOOPTRI then
        bvhtree_from_editmesh_looptri_create_tree w (Fin 0) ttype 6 em [] (- 1)
      else Inl AssertFailed)"

text \<open>
  \<^verbatim>\<open>BKE_bvhtree_from_editmesh_get\<close>. The argument \<open>bvh_cache_p\<close> is \<open>None\<close> for a null
  \<^verbatim>\<open>BVHCache **\<close>, and \<open>Some p\<close> with the content \<open>p\<close> of \<^verbatim>\<open>*bvh_cache_p\<close> otherwise.
\<close>

definition BKE_bvhtree_from_editmesh_get ::
  "bvh_world \<Rightarrow> BMEditMesh \<Rightarrow> int \<Rightarrow> BVHCacheType \<Rightarrow> BVHCache option option \<Rightarrow>
   error + BVHTreeFromEditMesh \<times> BVHCache option option \<times> bvh_world" where
  "BKE_bvhtree_from_editmesh_get w em ttype bvh_cache_type bvh_cache_p =
     ebind (bvhtree_from_editmesh_setup_data None bvh_cache_type em) (\<lambda>data0.
     ebind (case bvh_cache_p of
              None \<Rightarrow> Inr (data0, None, False)
            | Some p \<Rightarrow>
                ebind (bvhcache_find p bvh_cache_type (em_data_tree data0) True)
                  (\<lambda>(found, p1, r_tree, lock_started).
                    Inr (data0\<lparr>em_data_tree := r_tree, em_cached := found\<rparr>, Some p1,
                         lock_started)))
       (\<lambda>(data1, bvh_cache_p1, lock_started).
     if bvh_cache_p \<noteq> None \<and> em_cached data1
     then ebind (BLI_assert (lock_started = False)) (\<lambda>_. Inr (data1, bvh_cache_p1, w))
     else
       ebind (editmesh_get_create_tree w em bvh_cache_type ttype) (\<lambda>(tree, w1).
       let data2 = data1\<lparr>em_data_tree := tree\<rparr>;
           w2 = bvhtree_balance w1 (em_data_tree data2) lock_started
       in
       case bvh_cache_p1 of
         None \<Rightarrow> Inr (data2, None, w2)
       | Some p1 \<Rightarrow>
           ebind (BLI_assert (em_cached data2 = False)) (\<lambda>_.
           let data3 = data2\<lparr>em_cached := True\<rparr> in
           case p1 of
             None \<Rightarrow> Inl NullDeref
           | Some c \<Rightarrow>
               ebind (bvhcache_insert c (em_data_tree data3) bvh_cache_type) (\<lambda>c1.
                 Inr (data3, Some (Some (bvhcache_unlock c1 lock_started)), w2))))))"

subsection \<open>Releasing a bundle\<close>

definition free_bvhtree_from_editmesh ::
  "bvh_world \<Rightarrow> BVHTreeFromEditMesh \<Rightarrow> bvh_world \<times> BVHTreeFromEditMesh" where
  "free_bvhtree_from_editmesh w data =
     (if em_data_tree data \<noteq> None
      then ((if \<not> em_cached data then BLI_bvhtree_free w (em_data_tree data) else w),
            zero_BVHTreeFromEditMesh)
      else (w, data))"

definition free_bvhtree_from_mesh ::
  "bvh_world \<Rightarrow> BVHTreeFromMesh \<Rightarrow> bvh_world \<times> BVHTreeFromMesh" where
  "free_bvhtree_from_mesh w data =
     ((if data_tree data \<noteq> None \<and> \<not> cached data then BLI_bvhtree_free w (data_tree data)
       else w),
      zero_BVHTreeFromMesh)"

subsection \<open>Ray-cast callbacks over triangles\<close>

text \<open>
  Modelled from the spec: \<^verbatim>\<open>BVHTreeRay\<close> and \<^verbatim>\<open>BVHTreeRayHit\<close> are declared in
  \<^verbatim>\<open>BLI_kdopbvh.h\<close>, which is not in these sources: a ray is an origin, a direction and a
  sweep radius; a hit record is the index, position, normal and distance of the best hit so
  far.
\<close>

record BVHTreeRay =
  ray_origin :: float3
  ray_direction :: float3
  ray_radius :: float

record BVHTreeRayHit =
  hit_index :: int
  hit_co :: float3
  hit_no :: float3
  hit_dist :: float

text \<open>
  The functions of \<^verbatim>\<open>BLI_math\<close> that the callbacks call are not in these sources and are
  parameters: the ray-triangle test (\<^verbatim>\<open>isect_ray_tri_watertight_v3\<close> or
  \<^verbatim>\<open>isect_ray_tri_epsilon_v3\<close>, by a compile-time switch) gives the distance when the ray hits,
  the sweeping-sphere test gives \<^verbatim>\<open>idist\<close> and the hit point, and so on. \<open>mul_ff\<close> is the
  product of two floats, \<open>FLT_MAX\<close> the constant of \<^verbatim>\<open>cfloat\<close>.
\<close>

record math_lib =
  isect_ray_tri :: "BVHTreeRay \<Rightarrow> float3 \<Rightarrow> float3 \<Rightarrow> float3 \<Rightarrow> float option"
  isect_sweeping_sphere_tri_v3 ::
    "float3 \<Rightarrow> float3 \<Rightarrow> float \<Rightarrow> float3 \<Rightarrow> float3 \<Rightarrow> float3 \<Rightarrow> (float \<times> float3) option"
  madd_v3_v3v3fl :: "float3 \<Rightarrow> float3 \<Rightarrow> float \<Rightarrow> float3"
  normal_tri_v3 :: "float3 \<Rightarrow> float3 \<Rightarrow> float3 \<Rightarrow> float3"
  mul_ff :: "float \<Rightarrow> float \<Rightarrow> float"
  FLT_MAX :: float

definition bvhtree_ray_tri_intersection ::
  "math_lib \<Rightarrow> BVHTreeRay \<Rightarrow> float \<Rightarrow> float3 \<Rightarrow> float3 \<Rightarrow> float3 \<Rightarrow> float" where
  "bvhtree_ray_tri_intersection M ray m_dist v0 v1 v2 =
     (case isect_ray_tri M ray v0 v1 v2 of
        Some d \<Rightarrow> d
      | None \<Rightarrow> FLT_MAX M)"

definition bvhtree_sphereray_tri_intersection ::
  "math_lib \<Rightarrow> BVHTreeRay \<Rightarrow> float \<Rightarrow> float \<Rightarrow> float3 \<Rightarrow> float3 \<Rightarrow> float3 \<Rightarrow> float" where
  "bvhtree_sphereray_tri_intersection M ray radius m_dist v0 v1 v2 =
     (let p1 = madd_v3_v3v3fl M (ray_origin ray) (ray_direction ray) m_dist in
      case isect_sweeping_sphere_tri_v3 M (ray_origin ray) p1 radius v0 v1 v2 of
        Some (idist, hit_point) \<Rightarrow> mul_ff M idist m_dist
      | None \<Rightarrow> FLT_MAX M)"

text \<open>
  The loop \<^verbatim>\<open>do { ... } while (t2)\<close> of \<^verbatim>\<open>mesh_faces_spherecast\<close>: the body tests the triangle
  \<open>(t0, t1, t2)\<close>; then \<open>t1 = t2; t2 = t3; t3 = nullptr\<close>, and the loop goes on while \<open>t2\<close>
  is not null.
\<close>

fun mesh_faces_spherecast_loop ::
  "math_lib \<Rightarrow> int \<Rightarrow> BVHTreeRay \<Rightarrow> float3 \<Rightarrow> float3 \<Rightarrow> float3 \<Rightarrow> float3 option \<Rightarrow>
   BVHTreeRayHit \<Rightarrow> BVHTreeRayHit" where
  "mesh_faces_spherecast_loop M idx ray t0 t1 t2 t3 hit =
     (let d = (if float_eq (ray_radius ray) (Fin 0)
               then bvhtree_ray_tri_intersection M ray (hit_dist hit) t0 t1 t2
               else bvhtree_sphereray_tri_intersection M ray (ray_radius ray) (hit_dist hit)
                      t0 t1 t2);
          hit' = (if float_ge d (Fin 0) \<and> float_lt d (hit_dist hit)
                  then hit\<lparr>hit_index := idx, hit_dist := d,
                           hit_co := madd_v3_v3v3fl M (ray_origin ray) (ray_direction ray) d,
                           hit_no := normal_tri_v3 M t0 t1 t2\<rparr>
                  else hit)
      in
        case t3 of
          None \<Rightarrow> hit'
        | Some t3' \<Rightarrow> mesh_faces_spherecast_loop M idx ray t0 t2 t3' None hit')"

definition mesh_faces_spherecast ::
  "math_lib \<Rightarrow> BVHTreeFromMesh \<Rightarrow> int \<Rightarrow> BVHTreeRay \<Rightarrow> BVHTreeRayHit \<Rightarrow> error + BVHTreeRayHit" where
  "mesh_faces_spherecast M data idx ray hit =
     ebind (ptr_read (data_face data) idx) (\<lambda>face.
     ebind (ptr_read (data_vert_positions data) (int (f_v1 face))) (\<lambda>t0.
     ebind (ptr_read (data_vert_positions data) (int (f_v2 face))) (\<lambda>t1.
     ebind (ptr_read (data_vert_positions data) (int (f_v3 face))) (\<lambda>t2.
     ebind (if f_v4 face \<noteq> 0
            then ebind (ptr_read (data_vert_positions data) (int (f_v4 face))) (\<lambda>p. Inr (Some p))
            else Inr None) (\<lambda>t3.
       Inr (mesh_faces_spherecast_loop M idx ray t0 t1 t2 t3 hit))))))"

definition mesh_looptri_spherecast ::
  "math_lib \<Rightarrow> BVHTreeFromMesh \<Rightarrow> int \<Rightarrow> BVHTreeRay \<Rightarrow> BVHTreeRayHit \<Rightarrow> error + BVHTreeRayHit" where
  "mesh_looptri_spherecast M data idx ray hit =
     ebind (ptr_read (data_looptri data) idx) (\<lambda>lt.
     ebind (ptr_read (data_loop data) (int (tri0 lt))) (\<lambda>l0.
     ebind (ptr_read (data_vert_positions data) (int (loop_v l0))) (\<lambda>c0.
     ebind (ptr_read (data_loop data) (int (tri1 lt))) (\<lambda>l1.
     ebind (ptr_read (data_vert_positions data) (int (loop_v l1))) (\<lambda>c1.
     ebind (ptr_read (data_loop data) (int (tri2 lt))) (\<lambda>l2.
     ebind (ptr_read (data_vert_positions data) (int (loop_v l2))) (\<lambda>c2.
       let d = (if float_eq (ray_radius ray) (Fin 0)
                then bvhtree_ray_tri_intersection M ray (hit_dist hit) c0 c1 c2
                else bvhtree_sphereray_tri_intersection M ray (ray_radius ray) (hit_dist hit)
                       c0 c1 c2)
       in
         if float_ge d (Fin 0) \<and> float_lt d (hit_dist hit)
         then Inr (hit\<lparr>hit_index := idx, hit_dist := d,
                       hit_co := madd_v3_v3v3fl M (ray_origin ray) (ray_direction ray) d,
                       hit_no := normal_tri_v3 M c0 c1 c2\<rparr>)
         else Inr hit)))))))"

definition editmesh_looptri_spherecast ::
  "math_lib \<Rightarrow> BVHTreeFromEditMesh \<Rightarrow> int \<Rightarrow> BVHTreeRay \<Rightarrow> BVHTreeRayHit \<Rightarrow>
   error + BVHTreeRayHit" where
  "editmesh_looptri_spherecast M data idx ray hit =
     ebind (case em_data_em data of None \<Rightarrow> Inl NullDeref | Some em \<Rightarrow> Inr em) (\<lambda>em.
     ebind (ptr_read (Some (em_looptris em)) idx) (\<lambda>(l0, l1, l2).
       let t0 = bm_co (bm_l_v l0);
           t1 = bm_co (bm_l_v l1);
           t2 = bm_co (bm_l_v l2);
           d = (if float_eq (ray_radius ray) (Fin 0)
                then bvhtree_ray_tri_intersection M ray (hit_dist hit) t0 t1 t2
                else bvhtree_sphereray_tri_intersection M ray (ray_radius ray) (hit_dist hit)
                       t0 t1 t2)
       in
         if float_ge d (Fin 0) \<and> float_lt d (hit_dist hit)
         then Inr (hit\<lparr>hit_index := idx, hit_dist := d,
                       hit_co := madd_v3_v3v3fl M (ray_origin ray) (ray_direction ray) d,
                       hit_no := normal_tri_v3 M t0 t1 t2\<rparr>)
         else Inr hit))"

declare mesh_faces_spherecast_loop.simps [simp del]

subsection \<open>Auxiliary notions of the proofs\<close>

text \<open>A slot that was never filled holds the null pointer it was created with.\<close>

definition unfilled_null :: "BVHCache \<Rightarrow> bool" where
  "unfilled_null c = (\<forall>t. \<not> is_filled (items c t) \<longrightarrow> item_tree (items c t) = None)"

text \<open>The types \<^verbatim>\<open>BKE_bvhtree_from_mesh_get\<close> has a case for.\<close>

definition is_mesh_type :: "BVHCacheType \<Rightarrow> bool" where
  "is_mesh_type t =
     (t = BVHTREE_FROM_VERTS \<or> t = BVHTREE_FROM_EDGES \<or> t = BVHTREE_FROM_FACES
      \<or> t = BVHTREE_FROM_LOOPTRI \<or> t = BVHTREE_FROM_LOOPTRI_NO_HIDDEN
      \<or> t = BVHTREE_FROM_LOOSEVERTS \<or> t = BVHTREE_FROM_LOOSEEDGES)"

text \<open>The call of \<^verbatim>\<open>bvhtree_from_mesh_setup_data\<close> that \<^verbatim>\<open>BKE_bvhtree_from_mesh_get\<close> makes.\<close>

definition mesh_setup :: "Mesh \<Rightarrow> BVHCacheType \<Rightarrow> error + BVHTreeFromMesh" where
  "mesh_setup mesh t =
     bvhtree_from_mesh_setup_data None t (Some (mesh_vert_positions mesh))
       (Some (mesh_edges mesh)) (mesh_mface mesh) (Some (mesh_loops mesh))
       (if t = BVHTREE_FROM_LOOPTRI \<or> t = BVHTREE_FROM_LOOPTRI_NO_HIDDEN
        then Some (mesh_looptris mesh) else None)"

subsection \<open>Example inputs\<close>

text \<open>An empty store of trees in which every allocation succeeds.\<close>

definition world0 :: bvh_world where
  "world0 = \<lparr>trees = (\<lambda>_. None), next_addr = 0, alloc_plan = [], insert_count = 0\<rparr>"

text \<open>
  A square of two triangles, of which the first polygon is hidden, with a diagonal edge
  marked loose and a fifth vertex that no edge uses.
\<close>

definition example_mesh :: Mesh where
  "example_mesh =
     \<lparr>mesh_vert_positions =
        [(Fin 0, Fin 0, Fin 0), (Fin 1, Fin 0, Fin 0), (Fin 1, Fin 1, Fin 0),
         (Fin 0, Fin 1, Fin 0), (Fin 0, Fin 0, Fin 1)],
      mesh_edges =
        [\<lparr>ed_v1 = 0, ed_v2 = 1\<rparr>, \<lparr>ed_v1 = 1, ed_v2 = 2\<rparr>, \<lparr>ed_v1 = 2, ed_v2 = 3\<rparr>,
         \<lparr>ed_v1 = 3, ed_v2 = 0\<rparr>, \<lparr>ed_v1 = 0, ed_v2 = 2\<rparr>],
      mesh_loops =
        [\<lparr>loop_v = 0\<rparr>, \<lparr>loop_v = 1\<rparr>, \<lparr>loop_v = 2\<rparr>, \<lparr>loop_v = 0\<rparr>, \<lparr>loop_v = 2\<rparr>,
         \<lparr>loop_v = 3\<rparr>],
      mesh_polys = [\<lparr>loopstart = 0, totloop = 3\<rparr>, \<lparr>loopstart = 3, totloop = 3\<rparr>],
      mesh_looptris =
        [\<lparr>tri0 = 0, tri1 = 1, tri2 = 2\<rparr>, \<lparr>tri0 = 3, tri1 = 4, tri2 = 5\<rparr>],
      mesh_mface = None,
      mesh_totface = 0,
      mesh_hide_poly = Some (VArray_Span [True, False]),
      mesh_loose_edges =
        \<lparr>is_loose_bits = [False, False, False, False, True], loose_count = 1\<rparr>\<rparr>"

text \<open>The candidates of a builder's loop that a mask lets through (all of them when the mask is empty).\<close>

definition active_indices :: "bool list \<Rightarrow> nat list \<Rightarrow> nat list" where
  "active_indices elems_mask is = filter (\<lambda>i. elems_mask = [] \<or> elems_mask ! i) is"

text \<open>The index tags of a tree's primitives, in the order of their insertion.\<close>

definition tree_tags :: "bvh_world \<Rightarrow> nat \<Rightarrow> int list" where
  "tree_tags w tree = (case trees w tree of None \<Rightarrow> [] | Some t \<Rightarrow> map fst (bvh_leafs t))"

text \<open>An edit-mesh with no vertices, edges or triangles.\<close>

definition empty_editmesh :: BMEditMesh where
  "empty_editmesh = \<lparr>em_bm = \<lparr>bm_verts = [], bm_edges = []\<rparr>, em_tottri = 0, em_looptris = []\<rparr>"

text \<open>Three faces over the vertices of the example mesh, the last one a quad.\<close>

definition example_faces :: "MFace list" where
  "example_faces =
     [\<lparr>f_v1 = 0, f_v2 = 1, f_v3 = 2, f_v4 = 0\<rparr>, \<lparr>f_v1 = 0, f_v2 = 2, f_v3 = 3, f_v4 = 0\<rparr>,
      \<lparr>f_v1 = 4, f_v2 = 1, f_v3 = 2, f_v4 = 3\<rparr>]"

text \<open>An edit-mesh of a square: four vertices, four edges and two triangles.\<close>

definition example_editmesh :: BMEditMesh where
  "example_editmesh =
     (let v0 = \<lparr>bm_co = (Fin 0, Fin 0, Fin 0)\<rparr>; v1 = \<lparr>bm_co = (Fin 1, Fin 0, Fin 0)\<rparr>;
          v2 = \<lparr>bm_co = (Fin 1, Fin 1, Fin 0)\<rparr>; v3 = \<lparr>bm_co = (Fin 0, Fin 1, Fin 0)\<rparr>
      in \<lparr>em_bm = \<lparr>bm_verts = [v0, v1, v2, v3],
                   bm_edges = [\<lparr>bm_e_v1 = v0, bm_e_v2 = v1\<rparr>, \<lparr>bm_e_v1 = v1, bm_e_v2 = v2\<rparr>,
                               \<lparr>bm_e_v1 = v2, bm_e_v2 = v3\<rparr>, \<lparr>bm_e_v1 = v3, bm_e_v2 = v0\<rparr>]\<rparr>,
          em_tottri = 2,
          em_looptris = [(\<lparr>bm_l_v = v0\<rparr>, \<lparr>bm_l_v = v1\<rparr>, \<lparr>bm_l_v = v2\<rparr>),
                         (\<lparr>bm_l_v = v0\<rparr>, \<lparr>bm_l_v = v2\<rparr>, \<lparr>bm_l_v = v3\<rparr>)]\<rparr>)"

text \<open>
  A build is in order when the next allocation of the store succeeds, a mask that is given
  covers the \<open>n\<close> candidates and comes with the number of its set bits among them as the
  active count, at least one candidate is active, and the points of every active candidate
  can be read (\<open>prim\<close> is the builder's access to the candidate's data).
\<close>

definition alloc_ok :: "bvh_world \<Rightarrow> bool" where
  "alloc_ok w = (alloc_plan w = [] \<or> hd (alloc_plan w))"

definition mask_agrees :: "bool list \<Rightarrow> nat \<Rightarrow> int \<Rightarrow> bool" where
  "mask_agrees m n k =
     (m = [] \<or> (n \<le> length m \<and> k = int (length (active_indices m [0..<n]))))"

definition prims_ok :: "(int \<Rightarrow> error + float3 list \<times> nat) \<Rightarrow> bool list \<Rightarrow> nat \<Rightarrow> bool" where
  "prims_ok prim m n = list_all (\<lambda>i. \<not> isl (prim (int i))) (active_indices m [0..<n])"

definition build_ok ::
  "bvh_world \<Rightarrow> (int \<Rightarrow> error + float3 list \<times> nat) \<Rightarrow> bool list \<Rightarrow> nat \<Rightarrow> int \<Rightarrow> bool" where
  "build_ok w prim m n k =
     (alloc_ok w \<and> mask_agrees m n k \<and> active_indices m [0..<n] \<noteq> [] \<and> prims_ok prim m n)"

text \<open>
  What a builder has done when the tree it returns holds the active candidates: the tags of
  the tree are their indices, in order, and the store has seen one insertion for each.
\<close>

definition inserted_active :: "bvh_world \<Rightarrow> bvh_world \<Rightarrow> nat \<Rightarrow> bool list \<Rightarrow> nat \<Rightarrow> bool" where
  "inserted_active w w' tree m n =
     (tree_tags w' tree = map int (active_indices m [0..<n])
      \<and> insert_count w' = insert_count w + length (active_indices m [0..<n]))"

text \<open>
  A tree pointer is live in a store when it is null or the address of a tree of the store; a
  cache's trees are live when every slot's pointer is; a store keeps the trees of another
  when every address that held a tree still holds one.
\<close>

definition tree_live :: "bvh_world \<Rightarrow> tree_ptr \<Rightarrow> bool" where
  "tree_live w tree = (case tree of None \<Rightarrow> True | Some a \<Rightarrow> trees w a \<noteq> None)"

definition cache_trees_live :: "bvh_world \<Rightarrow> BVHCache option \<Rightarrow> bool" where
  "cache_trees_live w p =
     (case p of
        None \<Rightarrow> True
      | Some c \<Rightarrow> list_all (\<lambda>t. tree_live w (item_tree (items c t))) slot_types)"

definition trees_kept :: "bvh_world \<Rightarrow> bvh_world \<Rightarrow> bool" where
  "trees_kept w w' = (\<forall>a. trees w a \<noteq> None \<longrightarrow> trees w' a \<noteq> None)"

text \<open>The endpoints of a list of edges, and the number of set bits of a mask.\<close>

definition edge_verts :: "MEdge list \<Rightarrow> nat list" where
  "edge_verts es = concat (map (\<lambda>e. [ed_v1 e, ed_v2 e]) es)"

definition count_true :: "bool list \<Rightarrow> nat" where
  "count_true bits = length (filter (\<lambda>b. b) bits)"

text \<open>
  The elements of a virtual array; the flags of the triangles of a list of polygons, each
  polygon's triangles together and in the polygons' order, set when the polygon is not
  hidden; the mask of a given size that such flags give (bits beyond the flags are clear);
  and whether every set flag has a bit in a mask of that size.
\<close>

fun varray_list :: "'a VArray \<Rightarrow> 'a list" where
  "varray_list (VArray_Single v n) = replicate n v"
| "varray_list (VArray_Span xs) = xs"

definition poly_tri_flags :: "MPoly list \<Rightarrow> bool list \<Rightarrow> bool list" where
  "poly_tri_flags polys hides =
     concat (map (\<lambda>(p, h). replicate (nat (ME_POLY_TRI_TOT p)) (\<not> h)) (zip polys hides))"

definition flags_mask :: "bool list \<Rightarrow> nat \<Rightarrow> bool list" where
  "flags_mask flags k = map (\<lambda>j. j < length flags \<and> flags ! j) [0..<k]"

definition flags_fit :: "bool list \<Rightarrow> nat \<Rightarrow> bool" where
  "flags_fit flags k = list_all (\<lambda>j. \<not> flags ! j \<or> j < k) [0..<length flags]"

text \<open>
  The vertices that the three ray-cast callbacks over triangles fetch before they test: the
  corners of a loop-triangle of a mesh, of a loop-triangle of an edit-mesh, and of a face
  (with the fourth corner when the face is a quad).
\<close>

definition mesh_looptri_coords ::
  "BVHTreeFromMesh \<Rightarrow> int \<Rightarrow> error + float3 \<times> float3 \<times> float3" where
  "mesh_looptri_coords data idx =
     ebind (ptr_read (data_looptri data) idx) (\<lambda>lt.
     ebind (ptr_read (data_loop data) (int (tri0 lt))) (\<lambda>l0.
     ebind (ptr_read (data_vert_positions data) (int (loop_v l0))) (\<lambda>c0.
     ebind (ptr_read (data_loop data) (int (tri1 lt))) (\<lambda>l1.
     ebind (ptr_read (data_vert_positions data) (int (loop_v l1))) (\<lambda>c1.
     ebind (ptr_read (data_loop data) (int (tri2 lt))) (\<lambda>l2.
     ebind (ptr_read (data_vert_positions data) (int (loop_v l2))) (\<lambda>c2.
       Inr (c0, c1, c2))))))))"

definition editmesh_looptri_coords ::
  "BVHTreeFromEditMesh \<Rightarrow> int \<Rightarrow> error + float3 \<times> float3 \<times> float3" where
  "editmesh_looptri_coords data idx =
     ebind (case em_data_em data of None \<Rightarrow> Inl NullDeref | Some em \<Rightarrow> Inr em) (\<lambda>em.
     ebind (ptr_read (Some (em_looptris em)) idx) (\<lambda>(l0, l1, l2).
       Inr (bm_co (bm_l_v l0), bm_co (bm_l_v l1), bm_co (bm_l_v l2))))"

definition mesh_face_coords ::
  "BVHTreeFromMesh \<Rightarrow> int \<Rightarrow> error + float3 \<times> float3 \<times> float3 \<times> float3 option" where
  "mesh_face_coords data idx =
     ebind (ptr_read (data_face data) idx) (\<lambda>face.
     ebind (ptr_read (data_vert_positions data) (int (f_v1 face))) (\<lambda>t0.
     ebind (ptr_read (data_vert_positions data) (int (f_v2 face))) (\<lambda>t1.
     ebind (ptr_read (data_vert_positions data) (int (f_v3 face))) (\<lambda>t2.
     ebind (if f_v4 face \<noteq> 0
            then ebind (ptr_read (data_vert_positions data) (int (f_v4 face))) (\<lambda>p. Inr (Some p))
            else Inr None) (\<lambda>t3.
       Inr (t0, t1, t2, t3))))))"

text \<open>
  The update as the specification words it. \<open>tri_cast_dist\<close> is the distance the callbacks
  compute for a triangle (the exact test for a radius of zero, the sweeping sphere
  otherwise); \<open>hit_update\<close> overwrites index, distance, position and normal of the hit
  record when this distance is not negative and strictly less than the record's distance,
  and leaves the record unchanged otherwise.
\<close>

definition tri_cast_dist ::
  "math_lib \<Rightarrow> BVHTreeRay \<Rightarrow> float \<Rightarrow> float3 \<Rightarrow> float3 \<Rightarrow> float3 \<Rightarrow> float" where
  "tri_cast_dist M ray m_dist t0 t1 t2 =
     (if float_eq (ray_radius ray) (Fin 0)
      then bvhtree_ray_tri_intersection M ray m_dist t0 t1 t2
      else bvhtree_sphereray_tri_intersection M ray (ray_radius ray) m_dist t0 t1 t2)"

definition hit_update ::
  "math_lib \<Rightarrow> int \<Rightarrow> BVHTreeRay \<Rightarrow> float3 \<Rightarrow> float3 \<Rightarrow> float3 \<Rightarrow> BVHTreeRayHit \<Rightarrow>
   BVHTreeRayHit" where
  "hit_update M idx ray t0 t1 t2 hit =
     (if float_ge (tri_cast_dist M ray (hit_dist hit) t0 t1 t2) (Fin 0)
         \<and> float_lt (tri_cast_dist M ray (hit_dist hit) t0 t1 t2) (hit_dist hit)
      then \<lparr>hit_index = idx,
            hit_co = madd_v3_v3v3fl M (ray_origin ray) (ray_direction ray)
                       (tri_cast_dist M ray (hit_dist hit) t0 t1 t2),
            hit_no = normal_tri_v3 M t0 t1 t2,
            hit_dist = tri_cast_dist M ray (hit_dist hit) t0 t1 t2\<rparr>
      else hit)"

text \<open>
  A stand-in for the math library, for a ray along the z axis and triangles parallel to the
  xy plane: the ray hits a triangle at the height of its first corner. With it, a bundle
  over the example mesh, a ray and a hit record.
\<close>

definition example_math :: math_lib where
  "example_math =
     \<lparr>isect_ray_tri = (\<lambda>ray v0 v1 v2. if float_ge (snd (snd v0)) (Fin 0)
                                          then Some (snd (snd v0)) else None),
      isect_sweeping_sphere_tri_v3 = (\<lambda>p1 p2 radius v0 v1 v2. None),
      madd_v3_v3v3fl = (\<lambda>a b f. (Fin 0, Fin 0, f)),
      normal_tri_v3 = (\<lambda>v0 v1 v2. (Fin 0, Fin 0, Fin 1)),
      mul_ff = (\<lambda>a b. a),
      FLT_MAX = Fin 340282346638528859811704183484516925440\<rparr>"

definition example_data :: BVHTreeFromMesh where
  "example_data =
     zero_BVHTreeFromMesh
       \<lparr>data_vert_positions := Some (mesh_vert_positions example_mesh),
        data_loop := Some (mesh_loops example_mesh),
        data_looptri := Some (mesh_looptris example_mesh)\<rparr>"

definition example_ray :: BVHTreeRay where
  "example_ray =
     \<lparr>ray_origin = (Fin 0, Fin 0, Fin (- 1)), ray_direction = (Fin 0, Fin 0, Fin 1),
      ray_radius = Fin 0\<rparr>"

definition example_hit :: BVHTreeRayHit where
  "example_hit =
     \<lparr>hit_index = - 1, hit_co = (Fin 0, Fin 0, Fin 0), hit_no = (Fin 0, Fin 0, Fin 0),
      hit_dist = Fin 100\<rparr>"

section \<open>Properties\<close>

subsection \<open>The error monad\<close>

lemma ebind_Inr [simp]: "ebind (Inr x) f = f x"
  by (simp add: ebind_def)

lemma ebind_Inl [simp]: "ebind (Inl e) f = Inl e"
  by (simp add: ebind_def)

lemma ebind_eq_Inr: "ebind m f = Inr y \<longleftrightarrow> (\<exists>x. m = Inr x \<and> f x = Inr y)"
  by (cases m) simp_all

subsection \<open>The slot table\<close>

lemma bvhcache_find_nolock:
  "bvhcache_find (Some c) t r False =
     (if t = BVHTREE_MAX_ITEM then Inl OutOfBounds
      else if is_filled (items c t) then Inr (True, Some c, item_tree (items c t), False)
      else Inr (False, Some c, r, False))"
  by (simp add: bvhcache_find.simps)

lemma bvhcache_find_lock:
  "bvhcache_find (Some c) t r True =
     (if t = BVHTREE_MAX_ITEM then Inl OutOfBounds
      else if is_filled (items c t) then Inr (True, Some c, item_tree (items c t), False)
      else if mutex_locked c then Inl Deadlock
      else Inr (False, Some (c\<lparr>mutex_locked := True\<rparr>), r, True))"
  by (simp add: bvhcache_find.simps[of _ _ _ True] bvhcache_find_nolock)

lemma bvhcache_find_null_nolock:
  "bvhcache_find None t r False = Inr (False, None, r, False)"
  by (simp add: bvhcache_find.simps)

lemma bvhcache_find_null_lock:
  "bvhcache_find None t r True = bvhcache_find (Some bvhcache_init) t r True"
  by (simp add: bvhcache_find.simps[of _ _ _ True])

lemma bvhcache_find_hit:
  "is_filled (items c t) \<Longrightarrow> t \<noteq> BVHTREE_MAX_ITEM \<Longrightarrow>
   bvhcache_find (Some c) t r do_lock = Inr (True, Some c, item_tree (items c t), False)"
  by (cases do_lock) (simp_all add: bvhcache_find_nolock bvhcache_find_lock)

lemma bvhcache_step_items:
  assumes "bvhcache_step c op = Inr c'"
  shows "items c' =
     (case op of
        OpInsert tree type \<Rightarrow> (items c)(type := \<lparr>is_filled = True, item_tree = tree\<rparr>)
      | _ \<Rightarrow> items c)"
  using assms
  by (cases op; cases "case op of OpFind t r d \<Rightarrow> d | _ \<Rightarrow> False")
     (auto simp: bvhcache_find_nolock bvhcache_find_lock bvhcache_insert_def
        bvhcache_unlock_def split: if_splits)

lemma bvhcache_step_slot:
  assumes "bvhcache_step c op = Inr c'"
  shows "items c' t =
     (if is_insert_into t op
      then \<lparr>is_filled = True,
            item_tree = (case op of OpInsert tree _ \<Rightarrow> tree | _ \<Rightarrow> None)\<rparr>
      else items c t)"
  using bvhcache_step_items[OF assms] by (cases op) auto

lemma bvhcache_step_insert_empty:
  assumes "bvhcache_step c op = Inr c'" and "is_insert_into t op"
  shows "\<not> is_filled (items c t) \<and> t \<noteq> BVHTREE_MAX_ITEM"
  using assms by (cases op) (auto simp: bvhcache_insert_def split: if_splits)

lemma bvhcache_run_Cons:
  assumes "bvhcache_run c (op # ops) = Inr c'"
  obtains c1 where "bvhcache_step c op = Inr c1" and "bvhcache_run c1 ops = Inr c'"
  using assms by (auto split: sum.splits)

lemma bvhcache_run_filled:
  assumes "bvhcache_run c ops = Inr c'" and "is_filled (items c t)"
  shows "items c' t = items c t \<and> filter (is_insert_into t) ops = []"
  using assms
proof (induction ops arbitrary: c)
  case Nil
  then show ?case by simp
next
  case (Cons op ops)
  from Cons.prems(1) obtain c1
    where s: "bvhcache_step c op = Inr c1" and r: "bvhcache_run c1 ops = Inr c'"
    by (rule bvhcache_run_Cons)
  have ni: "\<not> is_insert_into t op"
    using bvhcache_step_insert_empty[OF s] Cons.prems(2) by blast
  then have same: "items c1 t = items c t"
    using bvhcache_step_slot[OF s, of t] by simp
  with Cons.IH[OF r] Cons.prems(2) ni show ?case by simp
qed

lemma bvhcache_run_inserts:
  assumes "bvhcache_run c ops = Inr c'"
  shows "length (filter (is_insert_into t) ops) \<le> (if is_filled (items c t) then 0 else 1)
       \<and> (is_filled (items c' t) \<longleftrightarrow> is_filled (items c t) \<or> list_ex (is_insert_into t) ops)"
  using assms
proof (induction ops arbitrary: c)
  case Nil
  then show ?case by simp
next
  case (Cons op ops)
  from Cons.prems(1) obtain c1
    where s: "bvhcache_step c op = Inr c1" and r: "bvhcache_run c1 ops = Inr c'"
    by (rule bvhcache_run_Cons)
  show ?case
  proof (cases "is_insert_into t op")
    case True
    then have e: "\<not> is_filled (items c t)" using bvhcache_step_insert_empty[OF s] by blast
    have f: "is_filled (items c1 t)" using bvhcache_step_slot[OF s, of t] True by simp
    from bvhcache_run_filled[OF r f] Cons.IH[OF r] True e f show ?thesis by simp
  next
    case False
    then have same: "items c1 t = items c t" using bvhcache_step_slot[OF s, of t] by simp
    with Cons.IH[OF r] False show ?thesis by simp
  qed
qed

lemma unfilled_null_run:
  assumes "bvhcache_run c ops = Inr c'" and "unfilled_null c"
  shows "unfilled_null c'"
  using assms
proof (induction ops arbitrary: c)
  case Nil
  then show ?case by simp
next
  case (Cons op ops)
  from Cons.prems(1) obtain c1
    where s: "bvhcache_step c op = Inr c1" and r: "bvhcache_run c1 ops = Inr c'"
    by (rule bvhcache_run_Cons)
  have "unfilled_null c1"
    unfolding unfilled_null_def using bvhcache_step_slot[OF s] Cons.prems(2)
    by (auto simp: unfilled_null_def)
  then show ?case using Cons.IH[OF r] by simp
qed

lemma has_tree_loop_ex:
  "has_tree_loop its tree ts = list_ex (\<lambda>t. item_tree (its t) = tree) ts"
  by (induction ts) auto


subsection \<open>Acquiring from the cache\<close>

lemma setup_data_Inr:
  assumes "bvhtree_from_mesh_setup_data tree t pos e f l lt = Inr d"
  shows "data_tree d = tree \<and> cached d = False \<and> t \<noteq> BVHTREE_MAX_ITEM"
  using assms
  by (auto simp: bvhtree_from_mesh_setup_data_def zero_BVHTreeFromMesh_def Let_def
        split: if_splits)

lemma mesh_setup_Inr:
  assumes "mesh_setup mesh t = Inr d"
  shows "data_tree d = None \<and> cached d = False \<and> t \<noteq> BVHTREE_MAX_ITEM"
  using assms unfolding mesh_setup_def by (rule setup_data_Inr)

lemma mesh_setup_mesh_type:
  assumes "is_mesh_type t"
  shows "\<exists>d0. mesh_setup mesh t = Inr d0"
  using assms
  by (auto simp: is_mesh_type_def mesh_setup_def bvhtree_from_mesh_setup_data_def Let_def)

lemma mesh_get_unfold:
  "BKE_bvhtree_from_mesh_get w p mesh t ttype =
     ebind (mesh_setup mesh t) (\<lambda>data0.
     ebind (bvhcache_find p t (data_tree data0) True) (\<lambda>(found, p1, r_tree, lock_started).
       if found
       then ebind (BLI_assert (lock_started = False))
              (\<lambda>_. Inr (data0\<lparr>data_tree := r_tree, cached := True\<rparr>, p1, w))
       else
         ebind (mesh_get_create_tree w mesh t ttype (Some (mesh_vert_positions mesh))
                  (if t = BVHTREE_FROM_LOOPTRI \<or> t = BVHTREE_FROM_LOOPTRI_NO_HIDDEN
                   then mesh_looptris mesh else [])) (\<lambda>(tree, w1).
         case p1 of
           None \<Rightarrow> Inl NullDeref
         | Some c \<Rightarrow>
             ebind (bvhcache_insert c tree t) (\<lambda>c1.
               Inr (data0\<lparr>data_tree := tree, cached := True\<rparr>,
                    Some (bvhcache_unlock c1 lock_started),
                    bvhtree_balance w1 tree lock_started)))))"
proof (cases "t = BVHTREE_FROM_LOOPTRI \<or> t = BVHTREE_FROM_LOOPTRI_NO_HIDDEN")
  case True
  then show ?thesis
    unfolding BKE_bvhtree_from_mesh_get_def mesh_setup_def Let_def
    apply (simp only: if_True)
    apply (rule ebind_cong[OF refl])
    apply (rule ebind_cong[OF refl])
    apply (simp add: BLI_assert_def split_def cong: option.case_cong)
    done
next
  case False
  then show ?thesis
    unfolding BKE_bvhtree_from_mesh_get_def mesh_setup_def Let_def
    apply (simp only: if_False)
    apply (rule ebind_cong[OF refl])
    apply (rule ebind_cong[OF refl])
    apply (simp add: BLI_assert_def split_def cong: option.case_cong)
    done
qed

lemma mesh_get_hit:
  assumes f: "is_filled (items c t)" and s: "mesh_setup mesh t = Inr d0"
  shows "BKE_bvhtree_from_mesh_get w (Some c) mesh t ttype =
           Inr (d0\<lparr>data_tree := item_tree (items c t), cached := True\<rparr>, Some c, w)"
  using s bvhcache_find_hit[OF f, of None True] mesh_setup_Inr[OF s]
  by (simp add: mesh_get_unfold BLI_assert_def)

lemma bvhcache_find_lock_Inr:
  assumes "bvhcache_find p t r True = Inr (found, p', r', ls)"
  shows "\<exists>c'. p' = Some c' \<and> t \<noteq> BVHTREE_MAX_ITEM
           \<and> (if found then is_filled (items c' t) \<and> r' = item_tree (items c' t) \<and> \<not> ls
              else \<not> is_filled (items c' t) \<and> ls \<and> r' = r)"
proof (cases p)
  case None
  with assms show ?thesis
    by (auto simp: bvhcache_find_null_lock bvhcache_find_lock split: if_splits)
next
  case (Some c)
  with assms show ?thesis
    by (auto simp: bvhcache_find_lock split: if_splits)
qed

lemma mesh_get_Inr:
  assumes g: "BKE_bvhtree_from_mesh_get w p mesh t ttype = Inr (d1, p1, w1)"
  shows "\<exists>d0 c1. mesh_setup mesh t = Inr d0 \<and> p1 = Some c1 \<and> is_filled (items c1 t)
           \<and> d1 = d0\<lparr>data_tree := item_tree (items c1 t), cached := True\<rparr>"
proof -
  from g obtain d0 where s: "mesh_setup mesh t = Inr d0"
    unfolding mesh_get_unfold ebind_eq_Inr by blast
  from g s obtain found p' r' ls where
    fnd: "bvhcache_find p t (data_tree d0) True = Inr (found, p', r', ls)"
    unfolding mesh_get_unfold by (cases "bvhcache_find p t (data_tree d0) True") auto
  from bvhcache_find_lock_Inr[OF fnd] obtain c' where c': "p' = Some c'"
    and t: "t \<noteq> BVHTREE_MAX_ITEM"
    and r: "if found then is_filled (items c' t) \<and> r' = item_tree (items c' t) \<and> \<not> ls
              else \<not> is_filled (items c' t) \<and> ls \<and> r' = data_tree d0"
    by blast
  show ?thesis
  proof (cases found)
    case True
    with g s fnd c' r show ?thesis
      by (auto simp: mesh_get_unfold BLI_assert_def)
  next
    case False
    with g s fnd c' r t show ?thesis
      by (auto simp: mesh_get_unfold ebind_eq_Inr bvhcache_insert_def bvhcache_unlock_def
            split: if_splits)
  qed
qed

subsection \<open>Claims about the cache\<close>

text \<open>
  C1. Two consecutive calls of \<^verbatim>\<open>BKE_bvhtree_from_mesh_get\<close> for the same mesh and cache type:
  when the first call returns, the second call (on the cache and the store of trees the first
  one left, with any tree type) returns the same bundle, so the same tree, and leaves the
  cache and the store as they were: it inserts no primitive, allocates nothing and runs no
  builder. The bundle is marked as cached.
\<close>

theorem acquire_twice_same_tree:
  assumes "BKE_bvhtree_from_mesh_get w p mesh t ttype = Inr (d1, p1, w1)"
  shows "BKE_bvhtree_from_mesh_get w1 p1 mesh t ttype' = Inr (d1, p1, w1) \<and> cached d1"
proof -
  from mesh_get_Inr[OF assms] obtain d0 c1 where s: "mesh_setup mesh t = Inr d0"
    and p1: "p1 = Some c1" and f: "is_filled (items c1 t)"
    and d1: "d1 = d0\<lparr>data_tree := item_tree (items c1 t), cached := True\<rparr>"
    by blast
  show ?thesis using mesh_get_hit[OF f s, of w1 ttype'] p1 d1 by simp
qed

theorem acquire_twice_same_tree_witness:
  "\<exists>d p w.
     BKE_bvhtree_from_mesh_get world0 None example_mesh BVHTREE_FROM_EDGES 4 = Inr (d, p, w)
     \<and> data_tree d = Some 0 \<and> insert_count w = 5 \<and> next_addr w = 1
     \<and> BKE_bvhtree_from_mesh_get w p example_mesh BVHTREE_FROM_EDGES 2 = Inr (d, p, w)"
proof -
  have "(case BKE_bvhtree_from_mesh_get world0 None example_mesh BVHTREE_FROM_EDGES 4 of
           Inl e \<Rightarrow> False
         | Inr (d, p, w) \<Rightarrow> data_tree d = Some 0 \<and> insert_count w = 5 \<and> next_addr w = 1)"
    by code_simp
  then obtain d p w where
    g: "BKE_bvhtree_from_mesh_get world0 None example_mesh BVHTREE_FROM_EDGES 4 = Inr (d, p, w)"
    and v: "data_tree d = Some 0" "insert_count w = 5" "next_addr w = 1"
    by (auto split: sum.splits)
  from acquire_twice_same_tree[OF g, of 2] g v show ?thesis by blast
qed

text \<open>
  C3. In a run of cache operations that raises no error, a slot is inserted into at most
  once; a slot that is filled stays as it is (filled, with the same tree) and is not
  inserted into again; a slot is filled at the end exactly when it was filled at the start
  or was inserted into. \<^verbatim>\<open>bvhcache_insert\<close> on a filled slot fails its assertion, and on an
  empty slot it stores the tree and marks the slot filled.
\<close>

theorem slot_filled_at_most_once:
  assumes "bvhcache_run c ops = Inr c'"
  shows "length (filter (is_insert_into t) ops) \<le> 1
       \<and> (is_filled (items c t) \<longrightarrow>
            items c' t = items c t \<and> filter (is_insert_into t) ops = [])
       \<and> (is_filled (items c' t) \<longleftrightarrow> is_filled (items c t) \<or> list_ex (is_insert_into t) ops)
       \<and> (is_filled (items c t) \<and> t \<noteq> BVHTREE_MAX_ITEM \<longrightarrow>
            bvhcache_insert c tree t = Inl AssertFailed)
       \<and> (\<not> is_filled (items c t) \<and> t \<noteq> BVHTREE_MAX_ITEM \<longrightarrow>
            bvhcache_insert c tree t =
              Inr (c\<lparr>items := (items c)(t := \<lparr>is_filled = True, item_tree = tree\<rparr>)\<rparr>))"
proof -
  have "length (filter (is_insert_into t) ops) \<le> 1"
    using bvhcache_run_inserts[OF assms, of t] by (simp split: if_splits)
  moreover have "is_filled (items c t) \<longrightarrow>
            items c' t = items c t \<and> filter (is_insert_into t) ops = []"
    using bvhcache_run_filled[OF assms, of t] by blast
  moreover have "is_filled (items c' t) \<longleftrightarrow>
            is_filled (items c t) \<or> list_ex (is_insert_into t) ops"
    using bvhcache_run_inserts[OF assms, of t] by blast
  ultimately show ?thesis by (simp add: bvhcache_insert_def)
qed

theorem slot_filled_at_most_once_witness:
  "bvhcache_run bvhcache_init
     [OpFind BVHTREE_FROM_EDGES None True, OpInsert (Some 3) BVHTREE_FROM_EDGES, OpUnlock True,
      OpFind BVHTREE_FROM_EDGES None True, OpHasTree (Some 3)]
     = Inr (bvhcache_init\<lparr>items := (items bvhcache_init)
              (BVHTREE_FROM_EDGES := \<lparr>is_filled = True, item_tree = Some 3\<rparr>)\<rparr>)
   \<and> length (filter (is_insert_into BVHTREE_FROM_EDGES)
       [OpFind BVHTREE_FROM_EDGES None True, OpInsert (Some 3) BVHTREE_FROM_EDGES, OpUnlock True,
        OpFind BVHTREE_FROM_EDGES None True, OpHasTree (Some 3)]) \<le> 1
   \<and> bvhcache_insert bvhcache_init (Some 3) BVHTREE_FROM_EDGES =
       Inr (bvhcache_init\<lparr>items := (items bvhcache_init)
              (BVHTREE_FROM_EDGES := \<lparr>is_filled = True, item_tree = Some 3\<rparr>)\<rparr>)
   \<and> bvhcache_insert
       (bvhcache_init\<lparr>items := (items bvhcache_init)
              (BVHTREE_FROM_EDGES := \<lparr>is_filled = True, item_tree = Some 3\<rparr>)\<rparr>)
       (Some 4) BVHTREE_FROM_EDGES = Inl AssertFailed"
proof -
  let ?ops = "[OpFind BVHTREE_FROM_EDGES None True, OpInsert (Some 3) BVHTREE_FROM_EDGES,
      OpUnlock True, OpFind BVHTREE_FROM_EDGES None True, OpHasTree (Some 3)]"
  let ?c1 = "bvhcache_init\<lparr>items := (items bvhcache_init)
              (BVHTREE_FROM_EDGES := \<lparr>is_filled = True, item_tree = Some 3\<rparr>)\<rparr>"
  have r: "bvhcache_run bvhcache_init ?ops = Inr ?c1"
    by (simp add: bvhcache_find_lock bvhcache_insert_def bvhcache_unlock_def bvhcache_init_def)
  have r1: "bvhcache_run ?c1 [] = Inr ?c1" by simp
  show ?thesis
    using r slot_filled_at_most_once[OF r, of BVHTREE_FROM_EDGES "Some 3"]
      slot_filled_at_most_once[OF r1, of BVHTREE_FROM_EDGES "Some 4"]
    by (simp add: bvhcache_init_def)
qed

text \<open>
  C4. \<^verbatim>\<open>bvhcache_insert\<close> may store the null tree. After it has, and after any further
  operations on the cache, every \<^verbatim>\<open>bvhcache_find\<close> for that type, with or without the lock,
  is a hit that gives the null tree and leaves the mutex alone; and
  \<^verbatim>\<open>BKE_bvhtree_from_mesh_get\<close> for that type returns the null tree as cached and leaves
  the cache and the store of trees as they were: nothing is built again.
\<close>

theorem null_tree_is_cached:
  assumes "bvhcache_insert c None t = Inr c1" and "bvhcache_run c1 ops = Inr c2"
  shows "bvhcache_find (Some c2) t r do_lock = Inr (True, Some c2, None, False)
       \<and> (is_mesh_type t \<longrightarrow>
            (\<exists>d. BKE_bvhtree_from_mesh_get w (Some c2) mesh t ttype = Inr (d, Some c2, w)
                 \<and> data_tree d = None \<and> cached d))"
proof -
  from assms(1) have t: "t \<noteq> BVHTREE_MAX_ITEM"
    and i: "items c1 t = \<lparr>is_filled = True, item_tree = None\<rparr>"
    by (auto simp: bvhcache_insert_def split: if_splits)
  from i have f: "is_filled (items c1 t)" by simp
  from bvhcache_run_filled[OF assms(2) f] i
  have i2: "items c2 t = \<lparr>is_filled = True, item_tree = None\<rparr>" by simp
  then have f2: "is_filled (items c2 t)" by simp
  have "bvhcache_find (Some c2) t r do_lock = Inr (True, Some c2, None, False)"
    using bvhcache_find_hit[OF f2 t, of r do_lock] i2 by simp
  moreover have "\<exists>d. BKE_bvhtree_from_mesh_get w (Some c2) mesh t ttype = Inr (d, Some c2, w)
                 \<and> data_tree d = None \<and> cached d" if "is_mesh_type t"
  proof -
    from mesh_setup_mesh_type[OF that] obtain d0 where s: "mesh_setup mesh t = Inr d0" by blast
    from mesh_get_hit[OF f2 s, of w ttype] i2 show ?thesis by simp
  qed
  ultimately show ?thesis by blast
qed

theorem null_tree_is_cached_witness:
  "bvhcache_insert bvhcache_init None BVHTREE_FROM_LOOSEEDGES =
     Inr (bvhcache_init\<lparr>items := (items bvhcache_init)
            (BVHTREE_FROM_LOOSEEDGES := \<lparr>is_filled = True, item_tree = None\<rparr>)\<rparr>)
   \<and> bvhcache_run
       (bvhcache_init\<lparr>items := (items bvhcache_init)
            (BVHTREE_FROM_LOOSEEDGES := \<lparr>is_filled = True, item_tree = None\<rparr>)\<rparr>)
       [OpUnlock False, OpFind BVHTREE_FROM_VERTS None False] =
     Inr (bvhcache_init\<lparr>items := (items bvhcache_init)
            (BVHTREE_FROM_LOOSEEDGES := \<lparr>is_filled = True, item_tree = None\<rparr>)\<rparr>)
   \<and> bvhcache_find
       (Some (bvhcache_init\<lparr>items := (items bvhcache_init)
            (BVHTREE_FROM_LOOSEEDGES := \<lparr>is_filled = True, item_tree = None\<rparr>)\<rparr>))
       BVHTREE_FROM_LOOSEEDGES (Some 9) True =
     Inr (True,
          Some (bvhcache_init\<lparr>items := (items bvhcache_init)
            (BVHTREE_FROM_LOOSEEDGES := \<lparr>is_filled = True, item_tree = None\<rparr>)\<rparr>),
          None, False)
   \<and> (\<exists>d. BKE_bvhtree_from_mesh_get world0
            (Some (bvhcache_init\<lparr>items := (items bvhcache_init)
               (BVHTREE_FROM_LOOSEEDGES := \<lparr>is_filled = True, item_tree = None\<rparr>)\<rparr>))
            example_mesh BVHTREE_FROM_LOOSEEDGES 4 =
          Inr (d,
               Some (bvhcache_init\<lparr>items := (items bvhcache_init)
                 (BVHTREE_FROM_LOOSEEDGES := \<lparr>is_filled = True, item_tree = None\<rparr>)\<rparr>),
               world0)
        \<and> data_tree d = None \<and> cached d)"
proof -
  let ?c1 = "bvhcache_init\<lparr>items := (items bvhcache_init)
            (BVHTREE_FROM_LOOSEEDGES := \<lparr>is_filled = True, item_tree = None\<rparr>)\<rparr>"
  have i: "bvhcache_insert bvhcache_init None BVHTREE_FROM_LOOSEEDGES = Inr ?c1"
    by (simp add: bvhcache_insert_def bvhcache_init_def)
  have r: "bvhcache_run ?c1 [OpUnlock False, OpFind BVHTREE_FROM_VERTS None False] = Inr ?c1"
    by (simp add: bvhcache_find_nolock bvhcache_unlock_def bvhcache_init_def)
  have m: "is_mesh_type BVHTREE_FROM_LOOSEEDGES" by (simp add: is_mesh_type_def)
  show ?thesis
    using i r m null_tree_is_cached[OF i r, of "Some 9" True world0 example_mesh 4]
    by simp
qed

text \<open>
  C10. \<^verbatim>\<open>bvhcache_has_tree\<close> is false for a null cache. For a cache, it is true exactly when
  some slot's tree pointer equals the queried pointer, whether the slot is filled or not. So
  for a cache that was created by \<open>bvhcache_init\<close> and used since, a query with the null
  pointer is true exactly when some slot is unfilled or is filled with the null tree.
\<close>

theorem bvhcache_has_tree_ignores_filled:
  assumes "bvhcache_run bvhcache_init ops = Inr c"
  shows "bvhcache_has_tree None tree = False
       \<and> bvhcache_has_tree (Some c) tree =
           list_ex (\<lambda>t. item_tree (items c t) = tree) slot_types
       \<and> bvhcache_has_tree (Some c) None =
           list_ex (\<lambda>t. \<not> is_filled (items c t) \<or> item_tree (items c t) = None) slot_types"
proof -
  have "unfilled_null bvhcache_init" by (simp add: unfilled_null_def bvhcache_init_def)
  from unfilled_null_run[OF assms this] have u: "unfilled_null c" .
  have "list_ex (\<lambda>t. item_tree (items c t) = None) slot_types =
        list_ex (\<lambda>t. \<not> is_filled (items c t) \<or> item_tree (items c t) = None) slot_types"
    using u unfolding list_ex_iff unfilled_null_def by blast
  then show ?thesis by (simp add: bvhcache_has_tree_def has_tree_loop_ex)
qed

theorem bvhcache_has_tree_ignores_filled_witness:
  "bvhcache_run bvhcache_init
     [OpFind BVHTREE_FROM_VERTS None True, OpInsert (Some 7) BVHTREE_FROM_VERTS, OpUnlock True]
     = Inr (bvhcache_init\<lparr>items := (items bvhcache_init)
              (BVHTREE_FROM_VERTS := \<lparr>is_filled = True, item_tree = Some 7\<rparr>)\<rparr>)
   \<and> bvhcache_has_tree
       (Some (bvhcache_init\<lparr>items := (items bvhcache_init)
              (BVHTREE_FROM_VERTS := \<lparr>is_filled = True, item_tree = Some 7\<rparr>)\<rparr>)) None
   \<and> bvhcache_has_tree
       (Some (bvhcache_init\<lparr>items := (items bvhcache_init)
              (BVHTREE_FROM_VERTS := \<lparr>is_filled = True, item_tree = Some 7\<rparr>)\<rparr>)) (Some 7)
   \<and> \<not> bvhcache_has_tree
       (Some (bvhcache_init\<lparr>items := (items bvhcache_init)
              (BVHTREE_FROM_VERTS := \<lparr>is_filled = True, item_tree = Some 7\<rparr>)\<rparr>)) (Some 8)"
proof -
  let ?c1 = "bvhcache_init\<lparr>items := (items bvhcache_init)
              (BVHTREE_FROM_VERTS := \<lparr>is_filled = True, item_tree = Some 7\<rparr>)\<rparr>"
  have r: "bvhcache_run bvhcache_init
     [OpFind BVHTREE_FROM_VERTS None True, OpInsert (Some 7) BVHTREE_FROM_VERTS, OpUnlock True]
     = Inr ?c1"
    by (simp add: bvhcache_find_lock bvhcache_insert_def bvhcache_unlock_def bvhcache_init_def)
  show ?thesis
    using r bvhcache_has_tree_ignores_filled[OF r, of None]
      bvhcache_has_tree_ignores_filled[OF r, of "Some 7"]
      bvhcache_has_tree_ignores_filled[OF r, of "Some 8"]
    by (simp add: slot_types_def bvhcache_init_def)
qed

subsection \<open>Builders\<close>

lemma active_indices_Nil [simp]: "active_indices m [] = []"
  by (simp add: active_indices_def)

lemma active_indices_Cons:
  "active_indices m (i # is) = (if m = [] \<or> m ! i then i # active_indices m is else active_indices m is)"
  by (simp add: active_indices_def)

lemma insert_loop_result:
  assumes "bvh_insert_loop prim w tree m is = Inr w'" and "trees w tree = Some t"
  shows "\<exists>new. trees w' = (trees w)(tree := Some (t\<lparr>bvh_leafs := bvh_leafs t @ new\<rparr>))
            \<and> insert_count w' = insert_count w + length new
            \<and> next_addr w' = next_addr w \<and> alloc_plan w' = alloc_plan w
            \<and> map fst new = map int (active_indices m is)"
  using assms
proof (induction "is" arbitrary: w t)
  case Nil
  have "trees w = (trees w)(tree := Some (t\<lparr>bvh_leafs := bvh_leafs t @ []\<rparr>))"
    using Nil.prems(2) by (simp add: fun_upd_idem)
  with Nil.prems(1) show ?case by (intro exI[of _ "[]"]) simp
next
  case (Cons i "is")
  show ?case
  proof (cases "m = [] \<or> m ! i")
    case False
    with Cons.prems(1) have "bvh_insert_loop prim w tree m is = Inr w'"
      by (auto simp: ebind_eq_Inr bit_get_def split: if_splits)
    from Cons.IH[OF this Cons.prems(2)] False show ?thesis
      by (simp add: active_indices_Cons)
  next
    case True
    with Cons.prems(1) obtain co n w1 where
      p: "prim (int i) = Inr (co, n)"
      and ins: "BLI_bvhtree_insert w tree (int i) co n = Inr w1"
      and rest: "bvh_insert_loop prim w1 tree m is = Inr w'"
      by (auto simp: ebind_eq_Inr bit_get_def split: if_splits)
    let ?t1 = "t\<lparr>bvh_leafs := bvh_leafs t @ [(int i, take n co)]\<rparr>"
    from ins Cons.prems(2) have w1: "trees w1 = (trees w)(tree := Some ?t1)"
      "insert_count w1 = Suc (insert_count w)" "next_addr w1 = next_addr w"
      "alloc_plan w1 = alloc_plan w"
      by (auto simp: BLI_bvhtree_insert_def split: if_splits)
    then have t1: "trees w1 tree = Some ?t1" by simp
    from Cons.IH[OF rest t1] obtain new where
      w': "trees w' = (trees w1)(tree := Some (?t1\<lparr>bvh_leafs := bvh_leafs ?t1 @ new\<rparr>))"
        "insert_count w' = insert_count w1 + length new"
        "next_addr w' = next_addr w1" "alloc_plan w' = alloc_plan w1"
      and n: "map fst new = map int (active_indices m is)" by blast
    show ?thesis
      using w' n w1 True
      by (intro exI[of _ "(int i, take n co) # new"]) (simp add: active_indices_Cons)
  qed
qed


lemma bvhtree_new_Some:
  assumes "BLI_bvhtree_new w n eps tt ax = (Some tree, w1)"
  shows "tree = next_addr w
       \<and> trees w1 = (trees w)(tree := Some \<lparr>bvh_maxsize = n, bvh_epsilon = eps,
             bvh_tree_type = tt, bvh_axis = ax, bvh_leafs = [], bvh_balanced = False\<rparr>)
       \<and> insert_count w1 = insert_count w \<and> next_addr w1 = Suc (next_addr w)
       \<and> alloc_plan w1 = tl (alloc_plan w)"
  using assms by (auto simp: BLI_bvhtree_new_def split: if_splits)

lemma bvhtree_new_None:
  assumes "BLI_bvhtree_new w n eps tt ax = (None, w1)"
  shows "w1 = w\<lparr>alloc_plan := tl (alloc_plan w)\<rparr>"
  using assms by (auto simp: BLI_bvhtree_new_def split: if_splits)

lemma build_core:
  assumes new: "BLI_bvhtree_new w n eps tt ax = (Some tree, w1)"
    and loop: "bvh_insert_loop prim w1 tree m is = Inr w2"
  shows "tree = next_addr w
       \<and> tree_tags w2 tree = map int (active_indices m is)
       \<and> insert_count w2 = insert_count w + length (active_indices m is)
       \<and> next_addr w2 = Suc (next_addr w)
       \<and> (\<forall>a. a \<noteq> tree \<longrightarrow> trees w2 a = trees w a)
       \<and> trees w2 tree \<noteq> None"
proof -
  let ?t0 = "\<lparr>bvh_maxsize = n, bvh_epsilon = eps, bvh_tree_type = tt, bvh_axis = ax,
             bvh_leafs = [], bvh_balanced = False\<rparr>"
  from bvhtree_new_Some[OF new] have tr: "tree = next_addr w"
    and t1: "trees w1 = (trees w)(tree := Some ?t0)"
    and c1: "insert_count w1 = insert_count w" and n1: "next_addr w1 = Suc (next_addr w)"
    by simp_all
  from t1 have live: "trees w1 tree = Some ?t0" by simp
  from insert_loop_result[OF loop live] obtain new where
    t2: "trees w2 = (trees w1)(tree := Some (?t0\<lparr>bvh_leafs := bvh_leafs ?t0 @ new\<rparr>))"
    and c2: "insert_count w2 = insert_count w1 + length new"
    and n2: "next_addr w2 = next_addr w1"
    and tags: "map fst new = map int (active_indices m is)"
    by blast
  have len: "length new = length (active_indices m is)"
    using tags by (metis length_map)
  show ?thesis
    using tr t1 t2 c1 c2 n1 n2 tags len by (simp add: tree_tags_def)
qed

lemma mesh_verts_builder_Some:
  assumes "bvhtree_from_mesh_verts_create_tree w eps tt ax positions verts_num m k
             = Inr (Some tree, w')"
  obtains n w1 where "BLI_bvhtree_new w n eps tt ax = (Some tree, w1)"
    and "bvh_insert_loop (mesh_vert_prim positions) w1 tree m [0..<nat verts_num] = Inr w'"
  using assms
  by (auto simp: bvhtree_from_mesh_verts_create_tree_def Let_def ebind_eq_Inr assert_len_def
        split: if_splits prod.splits option.splits)

lemma mesh_edges_builder_Some:
  assumes "bvhtree_from_mesh_edges_create_tree w positions edge edge_num m k eps tt ax
             = Inr (Some tree, w')"
  obtains n w1 where "BLI_bvhtree_new w n eps tt ax = (Some tree, w1)"
    and "bvh_insert_loop (mesh_edge_prim positions edge) w1 tree m [0..<nat edge_num] = Inr w'"
  using assms
  by (auto simp: bvhtree_from_mesh_edges_create_tree_def Let_def ebind_eq_Inr
        split: if_splits prod.splits option.splits)

lemma mesh_faces_builder_Some:
  assumes "bvhtree_from_mesh_faces_create_tree w eps tt ax positions face faces_num m k
             = Inr (Some tree, w')"
    and "positions \<noteq> None" and "face \<noteq> None"
  obtains n w1 where "BLI_bvhtree_new w n eps tt ax = (Some tree, w1)"
    and "bvh_insert_loop (mesh_face_prim positions face) w1 tree m [0..<nat faces_num] = Inr w'"
  using assms
  by (auto simp: bvhtree_from_mesh_faces_create_tree_def Let_def ebind_eq_Inr assert_len_def
        split: if_splits prod.splits option.splits)

lemma mesh_looptri_builder_Some:
  assumes "bvhtree_from_mesh_looptri_create_tree w eps tt ax positions mloop looptris m k
             = Inr (Some tree, w')"
    and "positions \<noteq> None"
  obtains n w1 where "BLI_bvhtree_new w n eps tt ax = (Some tree, w1)"
    and "bvh_insert_loop (mesh_looptri_prim positions mloop looptris) w1 tree m
           [0..<length looptris] = Inr w'"
  using assms
  by (cases "looptris = []")
     (auto simp: bvhtree_from_mesh_looptri_create_tree_def Let_def ebind_eq_Inr assert_len_def
        split: if_splits prod.splits option.splits)

lemma editmesh_verts_builder_Some:
  assumes "bvhtree_from_editmesh_verts_create_tree w eps tt ax em m k = Inr (Some tree, w')"
  obtains n w1 where "BLI_bvhtree_new w n eps tt ax = (Some tree, w1)"
    and "bvh_insert_loop (editmesh_vert_prim em) w1 tree m [0..<nat (bm_totvert (em_bm em))]
           = Inr w'"
  using assms
  by (auto simp: bvhtree_from_editmesh_verts_create_tree_def Let_def ebind_eq_Inr
        assert_len_def split: if_splits prod.splits option.splits)

lemma editmesh_edges_builder_Some:
  assumes "bvhtree_from_editmesh_edges_create_tree w eps tt ax em m k = Inr (Some tree, w')"
  obtains n w1 where "BLI_bvhtree_new w n eps tt ax = (Some tree, w1)"
    and "bvh_insert_loop (editmesh_edge_prim em) w1 tree m [0..<length (bm_edges (em_bm em))]
           = Inr w'"
  using assms
  by (auto simp: bvhtree_from_editmesh_edges_create_tree_def Let_def ebind_eq_Inr
        assert_len_def split: if_splits prod.splits option.splits)

lemma editmesh_looptri_builder_Some:
  assumes "bvhtree_from_editmesh_looptri_create_tree w eps tt ax em m k = Inr (Some tree, w')"
  obtains n w1 where "BLI_bvhtree_new w n eps tt ax = (Some tree, w1)"
    and "bvh_insert_loop (editmesh_looptri_prim em) w1 tree m [0..<nat (em_tottri em)] = Inr w'"
  using assms
  by (auto simp: bvhtree_from_editmesh_looptri_create_tree_def Let_def ebind_eq_Inr
        assert_len_def split: if_splits prod.splits option.splits)

text \<open>
  A build that is in order returns a tree: the allocation succeeds, no read of the loop
  fails, and the tree has room for every insertion.
\<close>

lemma bvhtree_new_ok:
  assumes "alloc_ok w"
  shows "\<exists>w1. BLI_bvhtree_new w n eps tt ax = (Some (next_addr w), w1)"
  using assms by (auto simp: BLI_bvhtree_new_def alloc_ok_def)

lemma insert_loop_total:
  assumes "trees w tree = Some t"
    and "m = [] \<or> (\<forall>i \<in> set is. i < length m)"
    and "\<forall>i \<in> set (active_indices m is). \<not> isl (prim (int i))"
    and "int (length (bvh_leafs t)) + int (length (active_indices m is)) \<le> bvh_maxsize t"
  shows "\<exists>w'. bvh_insert_loop prim w tree m is = Inr w'"
  using assms
proof (induction "is" arbitrary: w t)
  case Nil
  then show ?case by simp
next
  case (Cons i "is")
  from Cons.prems(2) have m': "m = [] \<or> (\<forall>i \<in> set is. i < length m)" by auto
  show ?case
  proof (cases "m = [] \<or> m ! i")
    case False
    with Cons.prems(2) have g: "m \<noteq> []" "bit_get m (int i) = Inr False"
      by (auto simp: bit_get_def)
    from False have a: "active_indices m (i # is) = active_indices m is"
      by (simp add: active_indices_Cons)
    from Cons.IH[OF Cons.prems(1) m'] Cons.prems(3,4) a
    obtain w' where "bvh_insert_loop prim w tree m is = Inr w'" by auto
    with g show ?thesis by simp
  next
    case True
    then have a: "active_indices m (i # is) = i # active_indices m is"
      by (simp add: active_indices_Cons)
    from True Cons.prems(2) have g: "(if m \<noteq> [] then bit_get m (int i) else Inr True) = Inr True"
      by (auto simp: bit_get_def)
    from Cons.prems(3) a obtain co n where p: "prim (int i) = Inr (co, n)"
      by (cases "prim (int i)") auto
    let ?t1 = "t\<lparr>bvh_leafs := bvh_leafs t @ [(int i, take n co)]\<rparr>"
    let ?w1 = "w\<lparr>trees := (trees w)(tree := Some ?t1), insert_count := Suc (insert_count w)\<rparr>"
    from Cons.prems(1,4) a have ins: "BLI_bvhtree_insert w tree (int i) co n = Inr ?w1"
      by (simp add: BLI_bvhtree_insert_def)
    have t1: "trees ?w1 tree = Some ?t1" by simp
    have cap: "int (length (bvh_leafs ?t1)) + int (length (active_indices m is))
        \<le> bvh_maxsize ?t1"
      using Cons.prems(4) a by simp
    have act: "\<forall>i \<in> set (active_indices m is). \<not> isl (prim (int i))"
      using Cons.prems(3) a by simp
    from Cons.IH[OF t1 m' act cap] obtain w' where
      "bvh_insert_loop prim ?w1 tree m is = Inr w'" by blast
    with g p ins show ?thesis by simp
  qed
qed

lemma active_indices_length_le: "length (active_indices m is) \<le> length is"
  by (simp add: active_indices_def)

text \<open>Allocation and loop together, for a build that is in order.\<close>

lemma build_total:
  assumes ok: "build_ok w prim m n k"
  shows "\<exists>w1 w2.
      BLI_bvhtree_new w (int (length (active_indices m [0..<n]))) eps tt ax
        = (Some (next_addr w), w1)
      \<and> bvh_insert_loop prim w1 (next_addr w) m [0..<n] = Inr w2
      \<and> BLI_bvhtree_get_len w2 (next_addr w) = int (length (active_indices m [0..<n]))
      \<and> inserted_active w w2 (next_addr w) m n"
proof -
  let ?k = "int (length (active_indices m [0..<n]))"
  from ok have a: "alloc_ok w" and ma: "mask_agrees m n k"
    and p: "prims_ok prim m n"
    by (simp_all add: build_ok_def)
  from bvhtree_new_ok[OF a] obtain w1 where
    new: "BLI_bvhtree_new w ?k eps tt ax = (Some (next_addr w), w1)" by blast
  from bvhtree_new_Some[OF new] have
    t1: "trees w1 (next_addr w) = Some \<lparr>bvh_maxsize = ?k, bvh_epsilon = eps,
             bvh_tree_type = tt, bvh_axis = ax, bvh_leafs = [], bvh_balanced = False\<rparr>"
    by simp
  have rng: "m = [] \<or> (\<forall>i \<in> set [0..<n]. i < length m)"
    using ma by (auto simp: mask_agrees_def)
  have pr: "\<forall>i \<in> set (active_indices m [0..<n]). \<not> isl (prim (int i))"
    using p by (simp add: prims_ok_def list_all_iff)
  from insert_loop_total[OF t1 rng pr] obtain w2 where
    loop: "bvh_insert_loop prim w1 (next_addr w) m [0..<n] = Inr w2" by auto
  from build_core[OF new loop] have
    tags: "tree_tags w2 (next_addr w) = map int (active_indices m [0..<n])"
    and cnt: "insert_count w2 = insert_count w + length (active_indices m [0..<n])"
    by simp_all
  have len: "BLI_bvhtree_get_len w2 (next_addr w) = ?k"
  proof -
    from build_core[OF new loop] obtain t2 where t2: "trees w2 (next_addr w) = Some t2"
      by auto
    with tags have "map fst (bvh_leafs t2) = map int (active_indices m [0..<n])"
      by (simp add: tree_tags_def)
    then have "length (bvh_leafs t2) = length (active_indices m [0..<n])"
      by (metis length_map)
    with t2 show ?thesis by (simp add: BLI_bvhtree_get_len_def)
  qed
  from new loop len tags cnt show ?thesis by (auto simp: inserted_active_def)
qed


lemma build_ok_counts:
  assumes ok: "build_ok w prim m n k" and n: "n = nat num"
  shows "(if m \<noteq> [] then k else num) = int (length (active_indices m [0..<n]))"
    and "m \<noteq> [] \<longrightarrow> IN_RANGE_INCL k 0 num"
    and "num \<noteq> 0"
    and "int (length (active_indices m [0..<n])) \<noteq> 0"
proof -
  from ok have ma: "mask_agrees m n k" and ne: "active_indices m [0..<n] \<noteq> []"
    by (simp_all add: build_ok_def)
  from ne have npos: "0 < n" by (cases n) (simp_all add: active_indices_def)
  with n have num: "num = int n" "0 < num" by auto
  have le: "length (active_indices m [0..<n]) \<le> n"
    using active_indices_length_le[of m "[0..<n]"] by simp
  show "(if m \<noteq> [] then k else num) = int (length (active_indices m [0..<n]))"
    using ma num by (auto simp: mask_agrees_def active_indices_def)
  show "m \<noteq> [] \<longrightarrow> IN_RANGE_INCL k 0 num"
    using ma num le by (auto simp: mask_agrees_def IN_RANGE_INCL_def)
  show "num \<noteq> 0" using num by simp
  show "int (length (active_indices m [0..<n])) \<noteq> 0" using ne by simp
qed

lemma prims_ok_some:
  assumes "build_ok w prim m n k"
  shows "\<exists>i. \<not> isl (prim (int i))"
proof -
  from assms have ne: "active_indices m [0..<n] \<noteq> []" and p: "prims_ok prim m n"
    by (simp_all add: build_ok_def)
  from ne obtain i where "i \<in> set (active_indices m [0..<n])"
    by (cases "active_indices m [0..<n]") auto
  with p show ?thesis by (auto simp: prims_ok_def list_all_iff)
qed

lemma mesh_verts_builder_total:
  assumes ok: "build_ok w (mesh_vert_prim positions) m (nat verts_num) k"
  shows "\<exists>w'. bvhtree_from_mesh_verts_create_tree w eps tt ax positions verts_num m k
               = Inr (Some (next_addr w), w')
             \<and> inserted_active w w' (next_addr w) m (nat verts_num)"
proof -
  note c = build_ok_counts[OF ok refl]
  from build_total[OF ok, of eps tt ax] obtain w1 w2 where
    "BLI_bvhtree_new w (int (length (active_indices m [0..<nat verts_num]))) eps tt ax
        = (Some (next_addr w), w1)"
    "bvh_insert_loop (mesh_vert_prim positions) w1 (next_addr w) m [0..<nat verts_num] = Inr w2"
    "BLI_bvhtree_get_len w2 (next_addr w) = int (length (active_indices m [0..<nat verts_num]))"
    "inserted_active w w2 (next_addr w) m (nat verts_num)"
    by blast
  with c show ?thesis
    by (cases "m = []") (simp_all add: bvhtree_from_mesh_verts_create_tree_def assert_len_def BLI_assert_def)
qed

lemma mesh_edges_builder_total:
  assumes ok: "build_ok w (mesh_edge_prim positions edge) m (nat edge_num) k"
  shows "\<exists>w'. bvhtree_from_mesh_edges_create_tree w positions edge edge_num m k eps tt ax
               = Inr (Some (next_addr w), w')
             \<and> inserted_active w w' (next_addr w) m (nat edge_num)"
proof -
  note c = build_ok_counts[OF ok refl]
  from build_total[OF ok, of eps tt ax] obtain w1 w2 where
    "BLI_bvhtree_new w (int (length (active_indices m [0..<nat edge_num]))) eps tt ax
        = (Some (next_addr w), w1)"
    "bvh_insert_loop (mesh_edge_prim positions edge) w1 (next_addr w) m [0..<nat edge_num]
        = Inr w2"
    "inserted_active w w2 (next_addr w) m (nat edge_num)"
    by blast
  with c show ?thesis
    by (cases "m = []") (simp_all add: bvhtree_from_mesh_edges_create_tree_def BLI_assert_def)
qed

lemma mesh_faces_builder_total:
  assumes ok: "build_ok w (mesh_face_prim positions face) m (nat faces_num) k"
  shows "\<exists>w'. bvhtree_from_mesh_faces_create_tree w eps tt ax positions face faces_num m k
               = Inr (Some (next_addr w), w')
             \<and> inserted_active w w' (next_addr w) m (nat faces_num)"
proof -
  note c = build_ok_counts[OF ok refl]
  from prims_ok_some[OF ok] obtain i where i: "\<not> isl (mesh_face_prim positions face (int i))"
    by blast
  have f: "face \<noteq> None"
    using i by (cases face) (simp_all add: mesh_face_prim_def ptr_read_def)
  have "isl (mesh_face_prim positions face (int i))" if "positions = None"
    unfolding mesh_face_prim_def
    by (cases "ptr_read face (int i)") (simp_all add: that ptr_read_def)
  with i have p: "positions \<noteq> None" by blast
  from build_total[OF ok, of eps tt ax] obtain w1 w2 where
    "BLI_bvhtree_new w (int (length (active_indices m [0..<nat faces_num]))) eps tt ax
        = (Some (next_addr w), w1)"
    "bvh_insert_loop (mesh_face_prim positions face) w1 (next_addr w) m [0..<nat faces_num]
        = Inr w2"
    "BLI_bvhtree_get_len w2 (next_addr w) = int (length (active_indices m [0..<nat faces_num]))"
    "inserted_active w w2 (next_addr w) m (nat faces_num)"
    by blast
  with c f p show ?thesis
    by (cases "m = []") (simp_all add: bvhtree_from_mesh_faces_create_tree_def assert_len_def BLI_assert_def)
qed

lemma mesh_looptri_builder_total:
  assumes ok: "build_ok w (mesh_looptri_prim positions mloop looptris) m (length looptris) k"
  shows "\<exists>w'. bvhtree_from_mesh_looptri_create_tree w eps tt ax positions mloop looptris m k
               = Inr (Some (next_addr w), w')
             \<and> inserted_active w w' (next_addr w) m (length looptris)"
proof -
  have n: "length looptris = nat (int (length looptris))" by simp
  note c = build_ok_counts[OF ok n]
  from c(3) have l: "looptris \<noteq> []" by simp
  from prims_ok_some[OF ok] obtain i where
    i: "\<not> isl (mesh_looptri_prim positions mloop looptris (int i))" by blast
  have "isl (mesh_looptri_prim positions mloop looptris (int i))" if "positions = None"
    unfolding mesh_looptri_prim_def
    by (cases "ptr_read (Some looptris) (int i)";
        cases "ptr_read mloop (int (tri0 (projr (ptr_read (Some looptris) (int i)))))")
       (simp_all add: that ptr_read_def)
  with i have p: "positions \<noteq> None" by blast
  from build_total[OF ok, of eps tt ax] obtain w1 w2 where
    "BLI_bvhtree_new w (int (length (active_indices m [0..<length looptris]))) eps tt ax
        = (Some (next_addr w), w1)"
    "bvh_insert_loop (mesh_looptri_prim positions mloop looptris) w1 (next_addr w) m
        [0..<length looptris] = Inr w2"
    "BLI_bvhtree_get_len w2 (next_addr w) = int (length (active_indices m [0..<length looptris]))"
    "inserted_active w w2 (next_addr w) m (length looptris)"
    by blast
  with c l p show ?thesis
    by (cases "m = []") (simp_all add: bvhtree_from_mesh_looptri_create_tree_def assert_len_def BLI_assert_def)
qed

lemma editmesh_verts_builder_total:
  assumes ok: "build_ok w (editmesh_vert_prim em) m (nat (bm_totvert (em_bm em))) k"
  shows "\<exists>w'. bvhtree_from_editmesh_verts_create_tree w eps tt ax em m k
               = Inr (Some (next_addr w), w')
             \<and> inserted_active w w' (next_addr w) m (nat (bm_totvert (em_bm em)))"
proof -
  note c = build_ok_counts[OF ok refl]
  from build_total[OF ok, of eps tt ax] obtain w1 w2 where
    "BLI_bvhtree_new w (int (length (active_indices m [0..<nat (bm_totvert (em_bm em))])))
        eps tt ax = (Some (next_addr w), w1)"
    "bvh_insert_loop (editmesh_vert_prim em) w1 (next_addr w) m
        [0..<nat (bm_totvert (em_bm em))] = Inr w2"
    "BLI_bvhtree_get_len w2 (next_addr w)
        = int (length (active_indices m [0..<nat (bm_totvert (em_bm em))]))"
    "inserted_active w w2 (next_addr w) m (nat (bm_totvert (em_bm em)))"
    by blast
  with c show ?thesis
    by (cases "m = []") (simp_all add: bvhtree_from_editmesh_verts_create_tree_def assert_len_def BLI_assert_def
          Let_def)
qed

lemma editmesh_edges_builder_total:
  assumes ok: "build_ok w (editmesh_edge_prim em) m (length (bm_edges (em_bm em))) k"
  shows "\<exists>w'. bvhtree_from_editmesh_edges_create_tree w eps tt ax em m k
               = Inr (Some (next_addr w), w')
             \<and> inserted_active w w' (next_addr w) m (length (bm_edges (em_bm em)))"
proof -
  have n: "length (bm_edges (em_bm em)) = nat (bm_totedge (em_bm em))"
    by (simp add: bm_totedge_def)
  note c = build_ok_counts[OF ok n]
  from build_total[OF ok, of eps tt ax] obtain w1 w2 where
    "BLI_bvhtree_new w (int (length (active_indices m [0..<length (bm_edges (em_bm em))])))
        eps tt ax = (Some (next_addr w), w1)"
    "bvh_insert_loop (editmesh_edge_prim em) w1 (next_addr w) m
        [0..<length (bm_edges (em_bm em))] = Inr w2"
    "BLI_bvhtree_get_len w2 (next_addr w)
        = int (length (active_indices m [0..<length (bm_edges (em_bm em))]))"
    "inserted_active w w2 (next_addr w) m (length (bm_edges (em_bm em)))"
    by blast
  with c show ?thesis
    by (cases "m = []") (simp_all add: bvhtree_from_editmesh_edges_create_tree_def assert_len_def BLI_assert_def
          Let_def)
qed

lemma editmesh_looptri_builder_total:
  assumes ok: "build_ok w (editmesh_looptri_prim em) m (nat (em_tottri em)) k"
  shows "\<exists>w'. bvhtree_from_editmesh_looptri_create_tree w eps tt ax em m k
               = Inr (Some (next_addr w), w')
             \<and> inserted_active w w' (next_addr w) m (nat (em_tottri em))"
proof -
  note c = build_ok_counts[OF ok refl]
  from build_total[OF ok, of eps tt ax] obtain w1 w2 where
    "BLI_bvhtree_new w (int (length (active_indices m [0..<nat (em_tottri em)]))) eps tt ax
        = (Some (next_addr w), w1)"
    "bvh_insert_loop (editmesh_looptri_prim em) w1 (next_addr w) m [0..<nat (em_tottri em)]
        = Inr w2"
    "BLI_bvhtree_get_len w2 (next_addr w)
        = int (length (active_indices m [0..<nat (em_tottri em)]))"
    "inserted_active w w2 (next_addr w) m (nat (em_tottri em))"
    by blast
  with c show ?thesis
    by (cases "m = []") (simp_all add: bvhtree_from_editmesh_looptri_create_tree_def assert_len_def BLI_assert_def
          Let_def)
qed



text \<open>
  The vertex, edge and loop-triangle builders of a mesh return null and leave the store of
  trees alone when the resolved count of active candidates is zero.
\<close>

lemma mesh_builders_zero_active_null:
  assumes "(if m \<noteq> [] then k else num) = 0" and "m \<noteq> [] \<longrightarrow> 0 \<le> num"
  shows "bvhtree_from_mesh_verts_create_tree w eps tt ax positions num m k = Inr (None, w)"
    and "bvhtree_from_mesh_edges_create_tree w positions edge num m k eps tt ax = Inr (None, w)"
    and "num = int (length looptris) \<Longrightarrow>
         bvhtree_from_mesh_looptri_create_tree w eps tt ax positions mloop looptris m k
           = Inr (None, w)"
  using assms
  by (auto simp: bvhtree_from_mesh_verts_create_tree_def
        bvhtree_from_mesh_edges_create_tree_def bvhtree_from_mesh_looptri_create_tree_def
        BLI_assert_def IN_RANGE_INCL_def Let_def split: if_splits)

text \<open>
  C2. The vertex and edge builders of an edit-mesh have no test for an active count of zero:
  for an edit-mesh without vertices or edges and no mask they call \<^verbatim>\<open>BLI_bvhtree_new\<close> with
  size zero and return the tree it allocated, where the vertex builder of a mesh returns
  null and leaves the store of trees alone.
\<close>

theorem editmesh_builders_allocate_empty_tree:
  "bvhtree_from_editmesh_verts_create_tree world0 (Fin 0) 4 6 empty_editmesh [] (- 1)
     = Inr (Some 0,
            world0\<lparr>trees := (trees world0)(0 := Some \<lparr>bvh_maxsize = 0, bvh_epsilon = Fin 0,
                       bvh_tree_type = 4, bvh_axis = 6, bvh_leafs = [], bvh_balanced = False\<rparr>),
                   next_addr := 1\<rparr>)
   \<and> bvhtree_from_editmesh_edges_create_tree world0 (Fin 0) 4 6 empty_editmesh [] (- 1)
     = Inr (Some 0,
            world0\<lparr>trees := (trees world0)(0 := Some \<lparr>bvh_maxsize = 0, bvh_epsilon = Fin 0,
                       bvh_tree_type = 4, bvh_axis = 6, bvh_leafs = [], bvh_balanced = False\<rparr>),
                   next_addr := 1\<rparr>)
   \<and> bvhtree_from_mesh_verts_create_tree world0 (Fin 0) 4 6 (Some []) 0 [] (- 1)
     = Inr (None, world0)"
  by (simp add: bvhtree_from_editmesh_verts_create_tree_def
        bvhtree_from_editmesh_edges_create_tree_def
        bvhtree_from_mesh_verts_create_tree_def empty_editmesh_def bm_totvert_def
        bm_totedge_def BLI_bvhtree_new_def world0_def assert_len_def BLI_assert_def
        BLI_bvhtree_get_len_def)

subsection \<open>Live trees\<close>

lemma trees_kept_refl [simp]: "trees_kept w w"
  by (simp add: trees_kept_def)

lemma trees_kept_trans: "trees_kept w w1 \<Longrightarrow> trees_kept w1 w2 \<Longrightarrow> trees_kept w w2"
  by (simp add: trees_kept_def)

lemma tree_live_kept: "trees_kept w w' \<Longrightarrow> tree_live w tr \<Longrightarrow> tree_live w' tr"
  by (auto simp: trees_kept_def tree_live_def split: option.splits)

lemma bvhtree_new_kept:
  assumes "BLI_bvhtree_new w n eps tt ax = (tr, w1)"
  shows "trees_kept w w1 \<and> tree_live w1 tr"
  using assms
  by (auto simp: BLI_bvhtree_new_def trees_kept_def tree_live_def split: if_splits)

lemma bvhtree_insert_kept:
  assumes "BLI_bvhtree_insert w tree i co n = Inr w1"
  shows "trees_kept w w1"
  using assms
  by (auto simp: BLI_bvhtree_insert_def trees_kept_def split: if_splits option.splits)

lemma insert_loop_kept:
  assumes "bvh_insert_loop prim w tree m is = Inr w'"
  shows "trees_kept w w'"
  using assms
proof (induction "is" arbitrary: w)
  case Nil
  then show ?case by simp
next
  case (Cons i "is")
  from Cons.prems
  consider "bvh_insert_loop prim w tree m is = Inr w'"
    | co n w1 where "BLI_bvhtree_insert w tree (int i) co n = Inr w1"
        and "bvh_insert_loop prim w1 tree m is = Inr w'"
    by (auto simp: ebind_eq_Inr split: if_splits)
  then show ?case
  proof cases
    case 1
    then show ?thesis by (rule Cons.IH)
  next
    case 2
    from bvhtree_insert_kept[OF 2(1)] Cons.IH[OF 2(2)] show ?thesis
      by (rule trees_kept_trans)
  qed
qed

lemma assert_len_Inr:
  "assert_len w tree k = Inr (tr, w') \<Longrightarrow> tr = Some tree \<and> w' = w"
  by (auto simp: assert_len_def ebind_eq_Inr)

lemma build_kept:
  assumes new: "BLI_bvhtree_new w n eps tt ax = (Some tree, w1)"
    and loop: "bvh_insert_loop prim w1 tree m is = Inr w2"
  shows "trees_kept w w2 \<and> tree_live w2 (Some tree)"
proof -
  from bvhtree_new_kept[OF new] have a: "trees_kept w w1" and b: "tree_live w1 (Some tree)"
    by simp_all
  from insert_loop_kept[OF loop] have c: "trees_kept w1 w2" .
  from trees_kept_trans[OF a c] tree_live_kept[OF c b] show ?thesis by simp
qed

lemma new_None_kept:
  "BLI_bvhtree_new w n eps tt ax = (None, w1) \<Longrightarrow> trees_kept w w1"
  by (drule bvhtree_new_None) (simp add: trees_kept_def)

lemma mesh_verts_builder_kept:
  assumes "bvhtree_from_mesh_verts_create_tree w eps tt ax positions verts_num m k = Inr (tr, w')"
  shows "trees_kept w w' \<and> tree_live w' tr"
proof (cases tr)
  case None
  with assms have "trees_kept w w'"
    by (auto simp: bvhtree_from_mesh_verts_create_tree_def Let_def ebind_eq_Inr
          assert_len_def split: if_splits prod.splits option.splits
          dest: new_None_kept)
  with None show ?thesis by (simp add: tree_live_def)
next
  case (Some tree)
  with assms have "bvhtree_from_mesh_verts_create_tree w eps tt ax positions verts_num m k
      = Inr (Some tree, w')" by simp
  then show ?thesis unfolding Some
    by (rule mesh_verts_builder_Some) (rule build_kept)
qed

lemma mesh_edges_builder_kept:
  assumes "bvhtree_from_mesh_edges_create_tree w positions edge edge_num m k eps tt ax
             = Inr (tr, w')"
  shows "trees_kept w w' \<and> tree_live w' tr"
proof (cases tr)
  case None
  with assms have "trees_kept w w'"
    by (auto simp: bvhtree_from_mesh_edges_create_tree_def Let_def ebind_eq_Inr
          split: if_splits prod.splits option.splits dest: new_None_kept)
  with None show ?thesis by (simp add: tree_live_def)
next
  case (Some tree)
  with assms have "bvhtree_from_mesh_edges_create_tree w positions edge edge_num m k eps tt ax
      = Inr (Some tree, w')" by simp
  then show ?thesis unfolding Some
    by (rule mesh_edges_builder_Some) (rule build_kept)
qed

lemma mesh_faces_builder_kept:
  assumes "bvhtree_from_mesh_faces_create_tree w eps tt ax positions face faces_num m k
             = Inr (tr, w')"
  shows "trees_kept w w' \<and> tree_live w' tr"
proof (cases tr)
  case None
  with assms have "trees_kept w w'"
    by (auto simp: bvhtree_from_mesh_faces_create_tree_def Let_def ebind_eq_Inr
          assert_len_def split: if_splits prod.splits option.splits dest: new_None_kept)
  with None show ?thesis by (simp add: tree_live_def)
next
  case (Some tree)
  show ?thesis
  proof (cases "positions \<noteq> None \<and> face \<noteq> None")
    case True
    with Some assms have "bvhtree_from_mesh_faces_create_tree w eps tt ax positions face
        faces_num m k = Inr (Some tree, w')" and "positions \<noteq> None" and "face \<noteq> None"
      by simp_all
    then show ?thesis unfolding Some
      by (rule mesh_faces_builder_Some) (rule build_kept)
  next
    case False
    with Some assms obtain n where "BLI_bvhtree_new w n eps tt ax = (Some tree, w')"
      by (auto simp: bvhtree_from_mesh_faces_create_tree_def Let_def ebind_eq_Inr
            assert_len_def split: if_splits prod.splits option.splits)
    from bvhtree_new_kept[OF this] Some show ?thesis by simp
  qed
qed

lemma mesh_looptri_builder_kept:
  assumes "bvhtree_from_mesh_looptri_create_tree w eps tt ax positions mloop looptris m k
             = Inr (tr, w')"
  shows "trees_kept w w' \<and> tree_live w' tr"
proof (cases tr)
  case None
  with assms have "trees_kept w w'"
    by (auto simp: bvhtree_from_mesh_looptri_create_tree_def Let_def ebind_eq_Inr
          assert_len_def split: if_splits prod.splits option.splits dest: new_None_kept)
  with None show ?thesis by (simp add: tree_live_def)
next
  case (Some tree)
  show ?thesis
  proof (cases "positions \<noteq> None")
    case True
    with Some assms have "bvhtree_from_mesh_looptri_create_tree w eps tt ax positions mloop
        looptris m k = Inr (Some tree, w')" and "positions \<noteq> None"
      by simp_all
    then show ?thesis unfolding Some
      by (rule mesh_looptri_builder_Some) (rule build_kept)
  next
    case False
    with Some assms obtain n where "BLI_bvhtree_new w n eps tt ax = (Some tree, w')"
      by (auto simp: bvhtree_from_mesh_looptri_create_tree_def Let_def ebind_eq_Inr
            assert_len_def split: if_splits prod.splits option.splits)
    from bvhtree_new_kept[OF this] Some show ?thesis by simp
  qed
qed

lemma mesh_get_create_tree_kept:
  assumes "mesh_get_create_tree w mesh t ttype positions looptris = Inr (tr, w')"
  shows "trees_kept w w' \<and> tree_live w' tr"
  using assms unfolding mesh_get_create_tree_def
  by (auto simp: ebind_eq_Inr split: if_splits prod.splits
        dest: mesh_verts_builder_kept mesh_edges_builder_kept mesh_faces_builder_kept
          mesh_looptri_builder_kept)

lemma bvhtree_balance_kept:
  "trees_kept w (bvhtree_balance w tr ls) \<and> (tree_live w tr \<longrightarrow> tree_live (bvhtree_balance w tr ls) tr)"
  by (auto simp: bvhtree_balance_def BLI_bvhtree_balance_def trees_kept_def tree_live_def
        split: option.splits)

lemma cache_trees_live_kept:
  assumes "trees_kept w w'" and "cache_trees_live w p"
  shows "cache_trees_live w' p"
proof (cases p)
  case None
  then show ?thesis by (simp add: cache_trees_live_def)
next
  case (Some c)
  with assms(2) have "\<forall>t \<in> set slot_types. tree_live w (item_tree (items c t))"
    by (simp add: cache_trees_live_def list_all_iff)
  then have "\<forall>t \<in> set slot_types. tree_live w' (item_tree (items c t))"
    using tree_live_kept[OF assms(1)] by blast
  with Some show ?thesis by (simp add: cache_trees_live_def list_all_iff)
qed

lemma cache_trees_live_slot:
  "cache_trees_live w (Some c) \<Longrightarrow> t \<noteq> BVHTREE_MAX_ITEM \<Longrightarrow> tree_live w (item_tree (items c t))"
  by (cases t) (simp_all add: cache_trees_live_def slot_types_def)

lemma cache_trees_live_init: "cache_trees_live w (Some bvhcache_init)"
  by (simp add: cache_trees_live_def bvhcache_init_def tree_live_def list_all_iff)

lemma cache_trees_live_items:
  "items c' = items c \<Longrightarrow> cache_trees_live w (Some c') = cache_trees_live w (Some c)"
  by (simp add: cache_trees_live_def)

lemma bvhcache_find_lock_items:
  assumes "bvhcache_find p t r True = Inr (found, Some c', r', ls)"
  shows "items c' = items (case p of None \<Rightarrow> bvhcache_init | Some c \<Rightarrow> c)"
  using assms
  by (cases p) (auto simp: bvhcache_find_null_lock bvhcache_find_lock split: if_splits)

lemma bvhcache_find_live:
  assumes "bvhcache_find p t r True = Inr (found, Some c', r', ls)"
    and "cache_trees_live w p"
  shows "cache_trees_live w (Some c')"
proof (cases p)
  case None
  with bvhcache_find_lock_items[OF assms(1)] have "items c' = items bvhcache_init" by simp
  from cache_trees_live_items[OF this] cache_trees_live_init show ?thesis by blast
next
  case (Some c)
  with bvhcache_find_lock_items[OF assms(1)] have "items c' = items c" by simp
  from cache_trees_live_items[OF this] assms(2) Some show ?thesis by blast
qed

lemma cache_trees_live_insert:
  assumes "bvhcache_insert c tr t = Inr c1" and "cache_trees_live w (Some c)"
    and "tree_live w tr"
  shows "cache_trees_live w (Some (bvhcache_unlock c1 ls))"
proof -
  from assms(1) have i: "items (bvhcache_unlock c1 ls) =
      (items c)(t := \<lparr>is_filled = True, item_tree = tr\<rparr>)"
    by (auto simp: bvhcache_insert_def bvhcache_unlock_def split: if_splits)
  from assms(2) have "\<forall>s \<in> set slot_types. tree_live w (item_tree (items c s))"
    by (simp add: cache_trees_live_def list_all_iff)
  with assms(3) have
    "\<forall>s \<in> set slot_types. tree_live w (item_tree (items (bvhcache_unlock c1 ls) s))"
    unfolding i by simp
  then show ?thesis by (simp add: cache_trees_live_def list_all_iff)
qed

lemma mesh_get_live:
  assumes g: "BKE_bvhtree_from_mesh_get w p mesh t ttype = Inr (d1, p1, w1)"
    and l: "cache_trees_live w p"
  shows "cache_trees_live w1 p1 \<and> tree_live w1 (data_tree d1)"
proof -
  from g obtain d0 where s: "mesh_setup mesh t = Inr d0"
    unfolding mesh_get_unfold ebind_eq_Inr by blast
  from g s obtain found p' r' ls where
    fnd: "bvhcache_find p t (data_tree d0) True = Inr (found, p', r', ls)"
    unfolding mesh_get_unfold by (cases "bvhcache_find p t (data_tree d0) True") auto
  from bvhcache_find_lock_Inr[OF fnd] obtain c' where c': "p' = Some c'"
    and t: "t \<noteq> BVHTREE_MAX_ITEM"
    and r: "if found then is_filled (items c' t) \<and> r' = item_tree (items c' t) \<and> \<not> ls
              else \<not> is_filled (items c' t) \<and> ls \<and> r' = data_tree d0"
    by blast
  from bvhcache_find_live[OF fnd[unfolded c'] l] have l': "cache_trees_live w (Some c')" .
  show ?thesis
  proof (cases found)
    case True
    with g s fnd c' r have "p1 = Some c'" "w1 = w" "data_tree d1 = item_tree (items c' t)"
      by (auto simp: mesh_get_unfold BLI_assert_def)
    with l' cache_trees_live_slot[OF l' t] show ?thesis by simp
  next
    case False
    with g s fnd c' obtain tr wb c1 where
      b: "mesh_get_create_tree w mesh t ttype (Some (mesh_vert_positions mesh))
            (if t = BVHTREE_FROM_LOOPTRI \<or> t = BVHTREE_FROM_LOOPTRI_NO_HIDDEN
             then mesh_looptris mesh else []) = Inr (tr, wb)"
      and i: "bvhcache_insert c' tr t = Inr c1"
      and res: "p1 = Some (bvhcache_unlock c1 ls)" "w1 = bvhtree_balance wb tr ls"
        "data_tree d1 = tr"
      by (auto simp: mesh_get_unfold ebind_eq_Inr)
    from mesh_get_create_tree_kept[OF b] have k: "trees_kept w wb" and lt: "tree_live wb tr"
      by simp_all
    from bvhtree_balance_kept[of wb tr ls] lt
    have k2: "trees_kept wb w1" and lt2: "tree_live w1 tr"
      using res by simp_all
    from cache_trees_live_kept[OF k2 cache_trees_live_kept[OF k l']]
    have "cache_trees_live w1 (Some c')" .
    from cache_trees_live_insert[OF i this lt2] res lt2 show ?thesis by simp
  qed
qed

lemma editmesh_setup_Inr:
  "bvhtree_from_editmesh_setup_data tr t em = Inr d \<Longrightarrow> em_data_tree d = tr \<and> \<not> em_cached d"
  by (auto simp: bvhtree_from_editmesh_setup_data_def zero_BVHTreeFromEditMesh_def Let_def
        split: if_splits)

lemma editmesh_get_uncached:
  assumes "BKE_bvhtree_from_editmesh_get w em ttype t None = Inr (ed, q, w2)"
  shows "\<not> em_cached ed \<and> q = None"
proof -
  from assms obtain d0 where s: "bvhtree_from_editmesh_setup_data None t em = Inr d0"
    unfolding BKE_bvhtree_from_editmesh_get_def ebind_eq_Inr by blast
  from editmesh_setup_Inr[OF s] have c: "\<not> em_cached d0" by simp
  from assms s c show ?thesis
    by (auto simp: BKE_bvhtree_from_editmesh_get_def Let_def ebind_eq_Inr)
qed

text \<open>
  C5. Release frees the tree exactly when the bundle is not cached: the store after
  \<^verbatim>\<open>free_bvhtree_from_mesh\<close> or \<^verbatim>\<open>free_bvhtree_from_editmesh\<close> is the store before for a
  cached bundle, and the store with the bundle's tree freed otherwise (a freed address holds
  no tree). A bundle that \<^verbatim>\<open>BKE_bvhtree_from_mesh_get\<close> returns is cached; releasing it
  leaves the store as it was, its tree is live there, and the next acquire of the same type
  returns the same bundle. A bundle that \<^verbatim>\<open>BKE_bvhtree_from_editmesh_get\<close> returns without
  a cache is not cached, and releasing it frees its tree.
\<close>

theorem release_frees_iff_not_cached:
  assumes "BKE_bvhtree_from_mesh_get w p mesh t ttype = Inr (d1, p1, w1)"
    and "cache_trees_live w p"
  shows "fst (free_bvhtree_from_mesh w' data) =
           (if cached data then w' else BLI_bvhtree_free w' (data_tree data))
       \<and> fst (free_bvhtree_from_editmesh w' edata) =
           (if em_cached edata then w' else BLI_bvhtree_free w' (em_data_tree edata))
       \<and> trees (BLI_bvhtree_free w' (Some a)) a = None
       \<and> cached d1
       \<and> fst (free_bvhtree_from_mesh w1 d1) = w1
       \<and> tree_live w1 (data_tree d1)
       \<and> BKE_bvhtree_from_mesh_get (fst (free_bvhtree_from_mesh w1 d1)) p1 mesh t ttype'
           = Inr (d1, p1, w1)
       \<and> (BKE_bvhtree_from_editmesh_get w' em ttype et None = Inr (ed, q, w2) \<longrightarrow>
            \<not> em_cached ed
            \<and> fst (free_bvhtree_from_editmesh w2 ed) = BLI_bvhtree_free w2 (em_data_tree ed))"
proof -
  from mesh_get_Inr[OF assms(1)] have c: "cached d1" by auto
  have f: "fst (free_bvhtree_from_mesh w' data) =
           (if cached data then w' else BLI_bvhtree_free w' (data_tree data))" for w' data
    by (simp add: free_bvhtree_from_mesh_def BLI_bvhtree_free_def)
  have e: "fst (free_bvhtree_from_editmesh w' edata) =
           (if em_cached edata then w' else BLI_bvhtree_free w' (em_data_tree edata))"
    for w' edata
    by (simp add: free_bvhtree_from_editmesh_def BLI_bvhtree_free_def)
  have n: "trees (BLI_bvhtree_free w' (Some a)) a = None"
    by (simp add: BLI_bvhtree_free_def)
  from f[of w1 d1] c have u: "fst (free_bvhtree_from_mesh w1 d1) = w1" by simp
  from mesh_get_live[OF assms] have lv: "tree_live w1 (data_tree d1)" by simp
  from mesh_get_Inr[OF assms(1)] obtain d0 c1 where s: "mesh_setup mesh t = Inr d0"
    and p1: "p1 = Some c1" and fl: "is_filled (items c1 t)"
    and d1: "d1 = d0\<lparr>data_tree := item_tree (items c1 t), cached := True\<rparr>"
    by blast
  have again: "BKE_bvhtree_from_mesh_get w1 p1 mesh t ttype' = Inr (d1, p1, w1)"
    using mesh_get_hit[OF fl s, of w1 ttype'] p1 d1 by simp
  have em: "\<not> em_cached ed
      \<and> fst (free_bvhtree_from_editmesh w2 ed) = BLI_bvhtree_free w2 (em_data_tree ed)"
    if "BKE_bvhtree_from_editmesh_get w' em ttype et None = Inr (ed, q, w2)"
    using editmesh_get_uncached[OF that] e[of w2 ed] by simp
  from f[of w' data] e[of w' edata] n c u lv again em show ?thesis by simp
qed

theorem release_frees_iff_not_cached_witness:
  "\<exists>d p w.
     BKE_bvhtree_from_mesh_get world0 None example_mesh BVHTREE_FROM_LOOSEVERTS 4
       = Inr (d, p, w)
     \<and> cache_trees_live world0 None
     \<and> data_tree d = Some 0 \<and> cached d
     \<and> fst (free_bvhtree_from_mesh w d) = w
     \<and> tree_live w (Some 0)
     \<and> BKE_bvhtree_from_mesh_get (fst (free_bvhtree_from_mesh w d)) p example_mesh
         BVHTREE_FROM_LOOSEVERTS 4 = Inr (d, p, w)
     \<and> trees (fst (free_bvhtree_from_mesh w (d\<lparr>cached := False\<rparr>))) 0 = None"
proof -
  have "(case BKE_bvhtree_from_mesh_get world0 None example_mesh BVHTREE_FROM_LOOSEVERTS 4 of
           Inl e \<Rightarrow> False
         | Inr (d, p, w) \<Rightarrow> data_tree d = Some 0)"
    by code_simp
  then obtain d p w where
    g: "BKE_bvhtree_from_mesh_get world0 None example_mesh BVHTREE_FROM_LOOSEVERTS 4
          = Inr (d, p, w)"
    and v: "data_tree d = Some 0"
    by (auto split: sum.splits)
  have l: "cache_trees_live world0 None" by (simp add: cache_trees_live_def)
  note th = release_frees_iff_not_cached[OF g l, where w' = w
      and data = "d\<lparr>cached := False\<rparr>" and a = 0 and ttype' = 4
      and edata = zero_BVHTreeFromEditMesh and em = empty_editmesh
      and et = BVHTREE_FROM_EM_VERTS and ed = zero_BVHTreeFromEditMesh and q = None
      and ?w2.0 = world0]
  note th' = th[unfolded v]
  from th' have "fst (free_bvhtree_from_mesh w (d\<lparr>cached := False\<rparr>)) =
      (if cached (d\<lparr>cached := False\<rparr>) then w
       else BLI_bvhtree_free w (data_tree (d\<lparr>cached := False\<rparr>)))"
    and "trees (BLI_bvhtree_free w (Some 0)) 0 = None"
    by blast+
  then have 1: "trees (fst (free_bvhtree_from_mesh w (d\<lparr>cached := False\<rparr>))) 0 = None"
    using v by simp
  from th' have 2: "cached d" "fst (free_bvhtree_from_mesh w d) = w" "tree_live w (Some 0)"
    "BKE_bvhtree_from_mesh_get (fst (free_bvhtree_from_mesh w d)) p example_mesh
         BVHTREE_FROM_LOOSEVERTS 4 = Inr (d, p, w)"
    by blast+
  from g l v 1 2 show ?thesis by blast
qed

subsection \<open>Loose vertices\<close>

lemma edge_verts_Nil [simp]: "edge_verts [] = []"
  by (simp add: edge_verts_def)

lemma edge_verts_Cons [simp]: "edge_verts (e # es) = ed_v1 e # ed_v2 e # edge_verts es"
  by (simp add: edge_verts_def)

lemma count_true_pos:
  assumes "i < length xs" and "xs ! i"
  shows "0 < count_true xs"
proof -
  from assms(1) have "xs ! i \<in> set xs" by (rule nth_mem)
  with assms(2) have "\<exists>x \<in> set xs. x" by blast
  then have "filter (\<lambda>b. b) xs \<noteq> []" by (simp add: filter_empty_conv)
  then show ?thesis by (simp add: count_true_def)
qed

lemma count_true_Cons: "count_true (x # xs) = (if x then Suc (count_true xs) else count_true xs)"
  by (simp add: count_true_def)

lemma count_true_reset:
  "i < length xs \<Longrightarrow> count_true (xs[i := False]) = count_true xs - (if xs ! i then 1 else 0)"
proof (induction xs arbitrary: i)
  case Nil
  then show ?case by simp
next
  case (Cons x xs)
  show ?case
  proof (cases i)
    case 0
    then show ?thesis by (simp add: count_true_Cons)
  next
    case (Suc j)
    with Cons.prems have j: "j < length xs" by simp
    from Cons.IH[OF j] Suc count_true_pos[OF j] show ?thesis
      by (cases "xs ! j") (simp_all add: count_true_Cons)
  qed
qed

lemma count_true_le: "count_true xs \<le> length xs"
  by (simp add: count_true_def)

text \<open>One bit of the scan: what the test and reset of one endpoint do.\<close>

lemma reset_clear_bit: "i < length xs \<Longrightarrow> \<not> xs ! i \<Longrightarrow> xs[i := False] = xs"
  by (simp add: list_update_same_conv)

lemma test_and_reset:
  "ebind (bit_get m (int v)) (\<lambda>b. ebind (if b then bit_put m (int v) False else Inr m) (f b)) =
     (if v < length m then f (m ! v) (m[v := False]) else Inl AssertFailed)"
  by (cases "m ! v") (simp_all add: bit_get_def bit_put_def reset_clear_bit)

lemma loose_verts_loop_Cons:
  "loose_verts_loop m n (e # es) =
     (if ed_v1 e < length m \<and> ed_v2 e < length m
      then loose_verts_loop (m[ed_v1 e := False, ed_v2 e := False])
             (n + (if m ! ed_v1 e then 1 else 0)
                + (if (m[ed_v1 e := False]) ! ed_v2 e then 1 else 0)) es
      else Inl AssertFailed)"
  by (simp add: test_and_reset Let_def)

declare loose_verts_loop.simps(2) [simp del]

lemma loose_verts_loop_result:
  "loose_verts_loop m n es =
     (if \<forall>v \<in> set (edge_verts es). v < length m
      then Inr (map (\<lambda>i. m ! i \<and> i \<notin> set (edge_verts es)) [0..<length m],
                n + int (count_true m)
                  - int (count_true (map (\<lambda>i. m ! i \<and> i \<notin> set (edge_verts es)) [0..<length m])))
      else Inl AssertFailed)"
proof (induction es arbitrary: m n)
  case Nil
  then show ?case by (simp add: map_nth)
next
  case (Cons e es)
  show ?case
  proof (cases "ed_v1 e < length m \<and> ed_v2 e < length m")
    case False
    then have "loose_verts_loop m n (e # es) = Inl AssertFailed"
      by (simp only: loose_verts_loop_Cons if_False)
    moreover from False have "\<not> (\<forall>v \<in> set (edge_verts (e # es)). v < length m)"
      by auto
    ultimately show ?thesis by simp
  next
    case True
    let ?m1 = "m[ed_v1 e := False]"
    let ?m2 = "?m1[ed_v2 e := False]"
    let ?n2 = "n + (if m ! ed_v1 e then 1 else 0) + (if ?m1 ! ed_v2 e then 1 else 0)"
    let ?r = "\<lambda>es m. map (\<lambda>i. m ! i \<and> i \<notin> set (edge_verts es)) [0..<length m]"
    have step: "loose_verts_loop m n (e # es) = loose_verts_loop ?m2 ?n2 es"
      using True by (simp only: loose_verts_loop_Cons if_True simp_thms)
    have m2: "?r es ?m2 = ?r (e # es) m"
      using True by (auto simp: nth_list_update)
    have c1: "int (count_true ?m1) = int (count_true m) - (if m ! ed_v1 e then 1 else 0)"
      using True count_true_reset[of "ed_v1 e" m] count_true_pos[of "ed_v1 e" m] by auto
    have c2: "int (count_true ?m2) = int (count_true ?m1) - (if ?m1 ! ed_v2 e then 1 else 0)"
      using True count_true_reset[of "ed_v2 e" ?m1] count_true_pos[of "ed_v2 e" ?m1] by auto
    have n2: "?n2 + int (count_true ?m2) = n + int (count_true m)"
      using c1 c2 by simp
    have rng: "(\<forall>v \<in> set (edge_verts es). v < length ?m2)
        \<longleftrightarrow> (\<forall>v \<in> set (edge_verts (e # es)). v < length m)"
      using True by simp
    show ?thesis
    proof (cases "\<forall>v \<in> set (edge_verts (e # es)). v < length m")
      case False
      with rng have "\<not> (\<forall>v \<in> set (edge_verts es). v < length ?m2)" by blast
      then have "loose_verts_loop ?m2 ?n2 es = Inl AssertFailed"
        unfolding Cons.IH by (rule if_not_P)
      with step False show ?thesis by simp
    next
      case ok: True
      with rng have "\<forall>v \<in> set (edge_verts es). v < length ?m2" by blast
      then have "loose_verts_loop ?m2 ?n2 es =
          Inr (?r es ?m2, ?n2 + int (count_true ?m2) - int (count_true (?r es ?m2)))"
        unfolding Cons.IH by (rule if_P)
      then have "loose_verts_loop m n (e # es) =
          Inr (?r (e # es) m, n + int (count_true m) - int (count_true (?r (e # es) m)))"
        unfolding step m2 n2 .
      with ok show ?thesis by simp
    qed
  qed
qed

lemma count_true_replicate: "count_true (replicate k True) = k"
  by (simp add: count_true_def)

lemma count_true_untouched:
  assumes "\<forall>v \<in> set vs. v < k"
  shows "int (count_true (map (\<lambda>i. i \<notin> set vs) [0..<k])) = int k - int (card (set vs))"
proof -
  have "count_true (map (\<lambda>i. i \<notin> set vs) [0..<k]) = length (filter (\<lambda>i. i \<notin> set vs) [0..<k])"
    by (simp add: count_true_def filter_map comp_def)
  also have "\<dots> = card (set (filter (\<lambda>i. i \<notin> set vs) [0..<k]))"
    by (rule distinct_card[symmetric]) simp
  also have "set (filter (\<lambda>i. i \<notin> set vs) [0..<k]) = {0..<k} - set vs"
    by auto
  also have "card ({0..<k} - set vs) = card {0..<k} - card (set vs)"
    using assms by (intro card_Diff_subset) auto
  finally have "count_true (map (\<lambda>i. i \<notin> set vs) [0..<k]) = k - card (set vs)" by simp
  moreover have "card (set vs) \<le> k"
  proof -
    from assms have "set vs \<subseteq> {0..<k}" by auto
    then have "card (set vs) \<le> card {0..<k}" by (intro card_mono) simp_all
    then show ?thesis by simp
  qed
  ultimately show ?thesis by simp
qed

text \<open>
  C8. \<^verbatim>\<open>loose_verts_map_get\<close>, for a vertex count that is not negative and edges whose
  endpoints are all below it, returns the mask in which bit \<open>i\<close> is set exactly when no
  edge has \<open>i\<close> as an endpoint, and as the count the vertex count minus the number of distinct
  endpoints; the count is the number of set bits of the mask. Otherwise an assertion fails
  (the bit vector's index check, or its size check). The function is the single scan
  \<open>loose_verts_loop\<close> over the edges.
\<close>

theorem loose_verts_map_get_spec:
  "loose_verts_map_get edges verts_num =
     (if 0 \<le> verts_num \<and> (\<forall>v \<in> set (edge_verts edges). int v < verts_num)
      then Inr (map (\<lambda>i. i \<notin> set (edge_verts edges)) [0..<nat verts_num],
                verts_num - int (card (set (edge_verts edges))))
      else Inl AssertFailed)
   \<and> (\<forall>m cnt. loose_verts_map_get edges verts_num = Inr (m, cnt) \<longrightarrow>
         cnt = int (count_true m))"
proof -
  let ?k = "nat verts_num"
  let ?T = "set (edge_verts edges)"
  let ?r = "map (\<lambda>i. i \<notin> ?T) [0..<?k]"
  have main: "loose_verts_map_get edges verts_num =
     (if 0 \<le> verts_num \<and> (\<forall>v \<in> ?T. int v < verts_num)
      then Inr (?r, int (count_true ?r)) else Inl AssertFailed)"
  proof (cases "0 \<le> verts_num")
    case False
    then show ?thesis by (simp add: loose_verts_map_get_def BLI_assert_def)
  next
    case True
    have r: "map (\<lambda>i. replicate ?k True ! i \<and> i \<notin> ?T) [0..<length (replicate ?k True)] = ?r"
      by simp
    have rng: "(\<forall>v \<in> ?T. v < length (replicate ?k True)) \<longleftrightarrow> (\<forall>v \<in> ?T. int v < verts_num)"
      using True by auto
    have le: "count_true ?r \<le> ?k"
      using count_true_le[of ?r] by simp
    show ?thesis
      unfolding loose_verts_map_get_def loose_verts_loop_result r rng
      using True le by (simp add: BLI_assert_def count_true_replicate)
  qed
  have cnt: "int (count_true ?r) = verts_num - int (card ?T)"
    if "0 \<le> verts_num" "\<forall>v \<in> ?T. int v < verts_num"
  proof -
    from that have "\<forall>v \<in> ?T. v < ?k" by auto
    from count_true_untouched[OF this] that(1) show ?thesis by simp
  qed
  from main cnt show ?thesis by (auto split: if_splits)
qed

theorem loose_verts_map_get_spec_witness:
  "loose_verts_map_get (mesh_edges example_mesh) 5 = Inr ([False, False, False, False, True], 1)
   \<and> set (edge_verts (mesh_edges example_mesh)) = {0, 1, 2, 3}
   \<and> count_true [False, False, False, False, True] = 1
   \<and> loose_verts_map_get (mesh_edges example_mesh) 3 = Inl AssertFailed"
proof -
  have e: "edge_verts (mesh_edges example_mesh) = [0, 1, 1, 2, 2, 3, 3, 0, 0, 2]"
    by (simp add: example_mesh_def)
  have s: "set (edge_verts (mesh_edges example_mesh)) = {0, 1, 2, 3}"
    unfolding e by auto
  have c: "card {0, 1, 2, 3 :: nat} = 4" by simp
  have u: "[0..<nat 5] = [0, 1, 2, 3, 4]" by code_simp
  from loose_verts_map_get_spec[of "mesh_edges example_mesh" 5]
  have 1: "loose_verts_map_get (mesh_edges example_mesh) 5
             = Inr ([False, False, False, False, True], 1)"
    unfolding s c u by simp
  from loose_verts_map_get_spec[of "mesh_edges example_mesh" 3]
  have 2: "loose_verts_map_get (mesh_edges example_mesh) 3 = Inl AssertFailed"
    unfolding s by simp
  from 1 2 s show ?thesis by (simp add: count_true_def)
qed

subsection \<open>Triangles of visible polygons\<close>

lemma varray_get_list:
  "varray_get va i =
     (if 0 \<le> i \<and> i < int (length (varray_list va)) then Inr (varray_list va ! nat i)
      else Inl AssertFailed)"
  by (cases va) auto

lemma flags_fit_iff: "flags_fit F k \<longleftrightarrow> (\<forall>j < length F. F ! j \<longrightarrow> j < k)"
  by (auto simp: flags_fit_def list_all_iff)

lemma flags_fit_append_False:
  "flags_fit (F @ replicate n False) k \<longleftrightarrow> flags_fit F k"
  by (auto simp: flags_fit_iff nth_append)

lemma flags_mask_append_False:
  "flags_mask (F @ replicate n False) k = flags_mask F k"
  by (auto simp: flags_mask_def nth_append)

lemma flags_fit_append_True:
  "flags_fit (F @ replicate n True) k \<longleftrightarrow> flags_fit F k \<and> (n = 0 \<or> length F + n \<le> k)"
proof (cases "n = 0")
  case True
  then show ?thesis by simp
next
  case False
  show ?thesis
  proof
    assume a: "flags_fit (F @ replicate n True) k"
    then have "flags_fit F k"
      by (auto simp: flags_fit_iff nth_append)
    moreover have "length F + n \<le> k"
    proof -
      from False have "length F + n - 1 < length (F @ replicate n True)" by simp
      moreover have "(F @ replicate n True) ! (length F + n - 1)"
      proof -
        from False have e: "length F + n - 1 = length F + (n - 1)" by simp
        from False show ?thesis unfolding e nth_append_length_plus by simp
      qed
      ultimately have "length F + n - 1 < k" using a unfolding flags_fit_iff by blast
      with False show ?thesis by simp
    qed
    ultimately show "flags_fit F k \<and> (n = 0 \<or> length F + n \<le> k)" by simp
  next
    assume "flags_fit F k \<and> (n = 0 \<or> length F + n \<le> k)"
    with False show "flags_fit (F @ replicate n True) k"
      by (auto simp: flags_fit_iff nth_append)
  qed
qed

lemma count_true_append: "count_true (xs @ ys) = count_true xs + count_true ys"
  by (simp add: count_true_def)

lemma count_true_replicate_False: "count_true (replicate n False) = 0"
  by (simp add: count_true_def)

lemma length_flags_mask [simp]: "length (flags_mask F k) = k"
  by (simp add: flags_mask_def)

lemma flags_mask_put:
  assumes "length F < k"
  shows "(flags_mask F k)[length F := True] = flags_mask (F @ [True]) k"
  using assms
  by (auto simp: flags_mask_def nth_append list_eq_iff_nth_eq nth_list_update)

text \<open>The inner loop sets the next \<open>n\<close> bits.\<close>

lemma no_hidden_set_loop_result:
  assumes "flags_fit F k"
  shows "no_hidden_set_loop (flags_mask F k) (int (length F)) len n =
     (if n = 0 \<or> length F + n \<le> k
      then Inr (flags_mask (F @ replicate n True) k, int (length F) + int n, len + int n)
      else Inl AssertFailed)"
  using assms
proof (induction n arbitrary: F len)
  case 0
  then show ?case by simp
next
  case (Suc n)
  show ?case
  proof (cases "length F < k")
    case False
    then show ?thesis by (simp add: bit_put_def)
  next
    case True
    have fit: "flags_fit (F @ [True]) k"
      using Suc.prems True flags_fit_append_True[of F 1 k] by simp
    have app: "(F @ [True]) @ replicate n True = F @ replicate (Suc n) True"
      by (simp add: replicate_app_Cons_same)
    have i: "int (length F) + 1 = int (length (F @ [True]))" by simp
    have "no_hidden_set_loop (flags_mask F k) (int (length F)) len (Suc n) =
          no_hidden_set_loop (flags_mask (F @ [True]) k) (int (length (F @ [True]))) (len + 1) n"
      unfolding i[symmetric] using True by (simp add: bit_put_def flags_mask_put)
    also have "\<dots> = (if n = 0 \<or> length (F @ [True]) + n \<le> k
      then Inr (flags_mask ((F @ [True]) @ replicate n True) k,
                int (length (F @ [True])) + int n, len + 1 + int n)
      else Inl AssertFailed)"
      by (rule Suc.IH[OF fit])
    also have "\<dots> = (if Suc n = 0 \<or> length F + Suc n \<le> k
      then Inr (flags_mask (F @ replicate (Suc n) True) k,
                int (length F) + int (Suc n), len + int (Suc n))
      else Inl AssertFailed)"
      unfolding app using True by auto
    finally show ?thesis .
  qed
qed

lemma flags_fit_prefix: "flags_fit (A @ B) k \<Longrightarrow> flags_fit A k"
  unfolding flags_fit_iff
proof (intro allI impI)
  fix j
  assume a: "\<forall>j<length (A @ B). (A @ B) ! j \<longrightarrow> j < k" and j: "j < length A" and t: "A ! j"
  from j have "j < length (A @ B)" by simp
  moreover from j t have "(A @ B) ! j" by (simp add: nth_append)
  ultimately show "j < k" using a by blast
qed

lemma poly_tri_flags_Cons:
  "poly_tri_flags (p # ps) (h # hs) =
     replicate (nat (ME_POLY_TRI_TOT p)) (\<not> h) @ poly_tri_flags ps hs"
  by (simp add: poly_tri_flags_def)

lemma poly_tri_flags_Nil [simp]: "poly_tri_flags [] hs = []"
  by (simp add: poly_tri_flags_def)

declare no_hidden_poly_loop.simps(2) [simp del]

lemma no_hidden_poly_loop_result:
  assumes "flags_fit F k"
    and "\<forall>p \<in> set ps. 2 \<le> totloop p"
    and "length hs = length ps"
    and "\<forall>j < length ps. varray_get hide (int i + int j) = Inr (hs ! j)"
  shows "no_hidden_poly_loop hide (flags_mask F k) (int (length F)) (int (count_true F))
           (int i) ps =
     (if flags_fit (F @ poly_tri_flags ps hs) k
      then Inr (flags_mask (F @ poly_tri_flags ps hs) k,
                int (count_true (F @ poly_tri_flags ps hs)))
      else Inl AssertFailed)"
  using assms
proof (induction ps arbitrary: F i hs)
  case Nil
  then show ?case by simp
next
  case (Cons p ps)
  from Cons.prems(3) obtain h hs' where hs: "hs = h # hs'" and len': "length hs' = length ps"
    by (cases hs) auto
  let ?n = "nat (ME_POLY_TRI_TOT p)"
  from Cons.prems(2) have tri: "0 \<le> ME_POLY_TRI_TOT p" and ps: "\<forall>p \<in> set ps. 2 \<le> totloop p"
    by (simp_all add: ME_POLY_TRI_TOT_def)
  from Cons.prems(4) hs have get0: "varray_get hide (int i) = Inr h"
    by (auto dest: spec[of _ 0])
  have get': "\<forall>j < length ps. varray_get hide (int (Suc i) + int j) = Inr (hs' ! j)"
  proof (intro allI impI)
    fix j assume "j < length ps"
    then have "Suc j < length (p # ps)" by simp
    with Cons.prems(4) have "varray_get hide (int i + int (Suc j)) = Inr (hs ! Suc j)" by blast
    then show "varray_get hide (int (Suc i) + int j) = Inr (hs' ! j)"
      by (simp add: hs add.commute add.left_commute)
  qed
  have i1: "int i + 1 = int (Suc i)" by simp
  let ?G = "F @ replicate ?n (\<not> h)"
  have flags: "F @ poly_tri_flags (p # ps) hs = ?G @ poly_tri_flags ps hs'"
    by (simp add: hs poly_tri_flags_Cons)
  show ?case
  proof (cases h)
    case True
    have fitG: "flags_fit ?G k"
      using Cons.prems(1) True by (simp add: flags_fit_append_False)
    have lenG: "int (length F) + ME_POLY_TRI_TOT p = int (length ?G)"
      using tri by simp
    have cntG: "count_true F = count_true ?G"
      using True by (simp add: count_true_append count_true_replicate_False)
    have maskG: "flags_mask F k = flags_mask ?G k"
      using True by (simp add: flags_mask_append_False)
    have "no_hidden_poly_loop hide (flags_mask F k) (int (length F)) (int (count_true F))
            (int i) (p # ps) =
          no_hidden_poly_loop hide (flags_mask F k) (int (length F) + ME_POLY_TRI_TOT p)
            (int (count_true F)) (int i + 1) ps"
      using True get0 by (simp add: no_hidden_poly_loop.simps(2) Let_def)
    also have "\<dots> = no_hidden_poly_loop hide (flags_mask ?G k) (int (length ?G))
            (int (count_true ?G)) (int (Suc i)) ps"
      unfolding lenG i1 using cntG maskG by simp
    also have "\<dots> = (if flags_fit (?G @ poly_tri_flags ps hs') k
      then Inr (flags_mask (?G @ poly_tri_flags ps hs') k,
                int (count_true (?G @ poly_tri_flags ps hs')))
      else Inl AssertFailed)"
      by (rule Cons.IH[OF fitG ps len' get'])
    finally show ?thesis unfolding flags .
  next
    case False
    have setl: "no_hidden_set_loop (flags_mask F k) (int (length F)) (int (count_true F)) ?n =
       (if ?n = 0 \<or> length F + ?n \<le> k
        then Inr (flags_mask ?G k, int (length F) + int ?n, int (count_true F) + int ?n)
        else Inl AssertFailed)"
      using no_hidden_set_loop_result[OF Cons.prems(1)] False by simp
    have cntG: "int (count_true F) + int ?n = int (count_true ?G)"
      using False by (simp add: count_true_append count_true_replicate)
    have lenG: "int (length F) + int ?n = int (length ?G)" by simp
    have start: "no_hidden_poly_loop hide (flags_mask F k) (int (length F))
            (int (count_true F)) (int i) (p # ps) =
          ebind (no_hidden_set_loop (flags_mask F k) (int (length F)) (int (count_true F)) ?n)
            (\<lambda>(mask', index', len'). no_hidden_poly_loop hide mask' index' len' (int i + 1) ps)"
      using False get0 tri by (simp add: no_hidden_poly_loop.simps(2) Let_def BLI_assert_def)
    show ?thesis
    proof (cases "?n = 0 \<or> length F + ?n \<le> k")
      case ok: True
      then have fitG: "flags_fit ?G k"
        using Cons.prems(1) False by (simp add: flags_fit_append_True)
      have "no_hidden_poly_loop hide (flags_mask F k) (int (length F))
            (int (count_true F)) (int i) (p # ps) =
          no_hidden_poly_loop hide (flags_mask ?G k) (int (length ?G))
            (int (count_true ?G)) (int (Suc i)) ps"
        unfolding start setl using ok by (simp only: if_True ebind_Inr prod.case lenG cntG i1)
      also have "\<dots> = (if flags_fit (?G @ poly_tri_flags ps hs') k
        then Inr (flags_mask (?G @ poly_tri_flags ps hs') k,
                  int (count_true (?G @ poly_tri_flags ps hs')))
        else Inl AssertFailed)"
        by (rule Cons.IH[OF fitG ps len' get'])
      finally show ?thesis unfolding flags .
    next
      case bad: False
      then have "\<not> flags_fit ?G k"
        using False by (simp add: flags_fit_append_True)
      then have nf: "\<not> flags_fit (?G @ poly_tri_flags ps hs') k"
        using flags_fit_prefix by blast
      have "no_hidden_poly_loop hide (flags_mask F k) (int (length F))
            (int (count_true F)) (int i) (p # ps) = Inl AssertFailed"
        unfolding start setl using bad by (simp only: if_False ebind_Inl)
      with nf show ?thesis unfolding flags by simp
    qed
  qed
qed

lemma flags_mask_take:
  "flags_mask F k = take k F @ replicate (k - length F) False"
  by (auto simp: flags_mask_def list_eq_iff_nth_eq nth_append)

lemma count_true_all_False:
  assumes "\<forall>x \<in> set xs. \<not> x"
  shows "count_true xs = 0"
  using assms by (simp add: count_true_def filter_empty_conv)

lemma flags_fit_drop:
  assumes "flags_fit F k"
  shows "\<forall>x \<in> set (drop k F). \<not> x"
proof
  fix x assume "x \<in> set (drop k F)"
  then obtain j where j: "j < length (drop k F)" and x: "x = drop k F ! j"
    unfolding in_set_conv_nth by blast
  from j have kj: "k + j < length F" by simp
  with x have xe: "x = F ! (k + j)" by simp
  show "\<not> x"
  proof
    assume x
    with xe kj assms have "k + j < k" unfolding flags_fit_iff by blast
    then show False by simp
  qed
qed

lemma count_true_flags_mask:
  assumes "flags_fit F k"
  shows "count_true (flags_mask F k) = count_true F"
proof -
  have "count_true F = count_true (take k F) + count_true (drop k F)"
    using count_true_append[of "take k F" "drop k F"] by simp
  also have "count_true (drop k F) = 0"
    using flags_fit_drop[OF assms] by (rule count_true_all_False)
  finally show ?thesis
    by (simp add: flags_mask_take count_true_append count_true_replicate_False)
qed

lemma flags_mask_exact:
  assumes "length F = k"
  shows "flags_fit F k \<and> flags_mask F k = F"
  using assms by (simp add: flags_fit_iff flags_mask_take)

lemma insert_loop_all_true:
  assumes "\<forall>i \<in> set is. i < n"
  shows "bvh_insert_loop prim w tree (replicate n True) is = bvh_insert_loop prim w tree [] is"
  using assms
proof (induction "is" arbitrary: w)
  case Nil
  then show ?case by simp
next
  case (Cons i "is")
  then have i: "i < n" and rest: "\<forall>i \<in> set is. i < n" by simp_all
  from i have ne: "replicate n True \<noteq> []" by auto
  from i have g: "bit_get (replicate n True) (int i) = Inr True"
    by (simp add: bit_get_def)
  show ?case
    using ne g Cons.IH[OF rest] by simp
qed

lemma looptri_builder_empty_mask:
  "bvhtree_from_mesh_looptri_create_tree w eps tt ax positions mloop looptris [] n =
   bvhtree_from_mesh_looptri_create_tree w eps tt ax positions mloop looptris
     (replicate (length looptris) True) (int (length looptris))"
proof (cases "looptris = []")
  case True
  then show ?thesis by (simp add: bvhtree_from_mesh_looptri_create_tree_def)
next
  case False
  then have ne: "replicate (length looptris) True \<noteq> []" by simp
  have loop: "bvh_insert_loop prim w1 tree (replicate (length looptris) True) [0..<length looptris]
      = bvh_insert_loop prim w1 tree [] [0..<length looptris]" for prim w1 tree
    by (rule insert_loop_all_true) simp
  show ?thesis
    using ne False
    by (simp add: bvhtree_from_mesh_looptri_create_tree_def loop BLI_assert_def
          IN_RANGE_INCL_def Let_def split: prod.split option.split)
qed




subsection \<open>Ray casts on triangles\<close>

lemma float_lt_irrefl: "\<not> float_lt x x"
  by (cases x) simp_all

lemma float_lt_neq: "float_lt x y \<Longrightarrow> x \<noteq> y"
  using float_lt_irrefl by blast

lemma faces_loop_None:
  "mesh_faces_spherecast_loop M idx ray t0 t1 t2 None hit = hit_update M idx ray t0 t1 t2 hit"
  by (simp add: mesh_faces_spherecast_loop.simps[of _ _ _ _ _ _ None] hit_update_def
        tri_cast_dist_def Let_def)

lemma faces_loop_Some:
  "mesh_faces_spherecast_loop M idx ray t0 t1 t2 (Some t3) hit =
     hit_update M idx ray t0 t2 t3 (hit_update M idx ray t0 t1 t2 hit)"
  unfolding faces_loop_None[symmetric]
  by (simp add: mesh_faces_spherecast_loop.simps[of M idx ray t0 t1 t2 "Some t3" hit]
        mesh_faces_spherecast_loop.simps[of M idx ray t0 t1 t2 None hit] Let_def)

lemma mesh_looptri_spherecast_update:
  "mesh_looptri_spherecast M data idx ray hit =
     ebind (mesh_looptri_coords data idx)
       (\<lambda>(t0, t1, t2). Inr (hit_update M idx ray t0 t1 t2 hit))"
  unfolding mesh_looptri_spherecast_def mesh_looptri_coords_def
  by (auto simp: ebind_def hit_update_def tri_cast_dist_def Let_def split: sum.splits)

lemma editmesh_looptri_spherecast_update:
  "editmesh_looptri_spherecast M data idx ray hit =
     ebind (editmesh_looptri_coords data idx)
       (\<lambda>(t0, t1, t2). Inr (hit_update M idx ray t0 t1 t2 hit))"
  unfolding editmesh_looptri_spherecast_def editmesh_looptri_coords_def
  by (auto simp: ebind_def hit_update_def tri_cast_dist_def Let_def
        split: sum.splits option.splits prod.splits)

lemma mesh_faces_spherecast_update:
  "mesh_faces_spherecast M data idx ray hit =
     ebind (mesh_face_coords data idx)
       (\<lambda>(t0, t1, t2, t3). Inr (case t3 of
            None \<Rightarrow> hit_update M idx ray t0 t1 t2 hit
          | Some t3' \<Rightarrow> hit_update M idx ray t0 t2 t3' (hit_update M idx ray t0 t1 t2 hit)))"
  unfolding mesh_faces_spherecast_def mesh_face_coords_def
  by (auto simp: ebind_def faces_loop_None faces_loop_Some split: sum.splits option.splits)

text \<open>
  C6. Each of the three ray-cast callbacks over triangles fetches the triangle's corners and
  applies \<open>hit_update\<close> (the face callback applies it to the first triangle and then,
  for a quad, to the second, against the record the first left). \<open>hit_update\<close> changes
  the hit record exactly when the computed distance is not negative and strictly less than
  the record's distance; the record is then the new index, distance, position and normal.
\<close>

theorem spherecast_updates_iff_closer:
  "mesh_looptri_spherecast M data idx ray hit =
     ebind (mesh_looptri_coords data idx)
       (\<lambda>(t0, t1, t2). Inr (hit_update M idx ray t0 t1 t2 hit))
   \<and> editmesh_looptri_spherecast M edata idx ray hit =
     ebind (editmesh_looptri_coords edata idx)
       (\<lambda>(t0, t1, t2). Inr (hit_update M idx ray t0 t1 t2 hit))
   \<and> mesh_faces_spherecast M data idx ray hit =
     ebind (mesh_face_coords data idx)
       (\<lambda>(t0, t1, t2, t3). Inr (case t3 of
            None \<Rightarrow> hit_update M idx ray t0 t1 t2 hit
          | Some t3' \<Rightarrow> hit_update M idx ray t0 t2 t3' (hit_update M idx ray t0 t1 t2 hit)))
   \<and> (hit_update M idx ray t0 t1 t2 hit \<noteq> hit \<longleftrightarrow>
        float_ge (tri_cast_dist M ray (hit_dist hit) t0 t1 t2) (Fin 0)
        \<and> float_lt (tri_cast_dist M ray (hit_dist hit) t0 t1 t2) (hit_dist hit))
   \<and> (float_ge (tri_cast_dist M ray (hit_dist hit) t0 t1 t2) (Fin 0)
        \<and> float_lt (tri_cast_dist M ray (hit_dist hit) t0 t1 t2) (hit_dist hit) \<longrightarrow>
        hit_update M idx ray t0 t1 t2 hit =
          \<lparr>hit_index = idx,
           hit_co = madd_v3_v3v3fl M (ray_origin ray) (ray_direction ray)
                      (tri_cast_dist M ray (hit_dist hit) t0 t1 t2),
           hit_no = normal_tri_v3 M t0 t1 t2,
           hit_dist = tri_cast_dist M ray (hit_dist hit) t0 t1 t2\<rparr>)"
proof -
  let ?d = "tri_cast_dist M ray (hit_dist hit) t0 t1 t2"
  have neq: "hit_update M idx ray t0 t1 t2 hit \<noteq> hit"
    if "float_ge ?d (Fin 0)" and lt: "float_lt ?d (hit_dist hit)"
  proof
    assume "hit_update M idx ray t0 t1 t2 hit = hit"
    then have "hit_dist (hit_update M idx ray t0 t1 t2 hit) = hit_dist hit" by simp
    with that have "?d = hit_dist hit" by (simp add: hit_update_def)
    with float_lt_neq[OF lt] show False by simp
  qed
  have same: "hit_update M idx ray t0 t1 t2 hit = hit"
    if "\<not> (float_ge ?d (Fin 0) \<and> float_lt ?d (hit_dist hit))"
    unfolding hit_update_def using that by (rule if_not_P)
  have upd: "hit_update M idx ray t0 t1 t2 hit =
          \<lparr>hit_index = idx,
           hit_co = madd_v3_v3v3fl M (ray_origin ray) (ray_direction ray) ?d,
           hit_no = normal_tri_v3 M t0 t1 t2, hit_dist = ?d\<rparr>"
    if "float_ge ?d (Fin 0) \<and> float_lt ?d (hit_dist hit)"
    using that by (simp add: hit_update_def)
  from neq same upd mesh_looptri_spherecast_update[of M data idx ray hit]
    editmesh_looptri_spherecast_update[of M edata idx ray hit]
    mesh_faces_spherecast_update[of M data idx ray hit]
  show ?thesis by blast
qed

theorem spherecast_updates_iff_closer_witness:
  "mesh_looptri_spherecast example_math example_data 1 example_ray example_hit =
     Inr \<lparr>hit_index = 1, hit_co = (Fin 0, Fin 0, Fin 0), hit_no = (Fin 0, Fin 0, Fin 1),
          hit_dist = Fin 0\<rparr>
   \<and> mesh_looptri_spherecast example_math example_data 1 example_ray
       (example_hit\<lparr>hit_dist := Fin 0\<rparr>) = Inr (example_hit\<lparr>hit_dist := Fin 0\<rparr>)
   \<and> tri_cast_dist example_math example_ray (Fin 100) (Fin 0, Fin 0, Fin 0)
       (Fin 1, Fin 1, Fin 0) (Fin 0, Fin 1, Fin 0) = Fin 0
   \<and> float_ge (Fin 0) (Fin 0) \<and> float_lt (Fin 0) (Fin 100) \<and> \<not> float_lt (Fin 0) (Fin 0)"
proof -
  let ?t0 = "(Fin 0, Fin 0, Fin 0) :: float3"
  let ?t1 = "(Fin 1, Fin 1, Fin 0) :: float3"
  let ?t2 = "(Fin 0, Fin 1, Fin 0) :: float3"
  have c: "mesh_looptri_coords example_data 1 = Inr (?t0, ?t1, ?t2)"
    by (simp add: mesh_looptri_coords_def example_data_def example_mesh_def ptr_read_def)
  have d: "tri_cast_dist example_math example_ray m ?t0 ?t1 ?t2 = Fin 0" for m
    by (simp add: tri_cast_dist_def example_math_def example_ray_def
          bvhtree_ray_tri_intersection_def)
  note a = spherecast_updates_iff_closer[where M = example_math and data = example_data
      and idx = 1 and ray = example_ray and hit = example_hit and ?t0.0 = ?t0
      and ?t1.0 = ?t1 and ?t2.0 = ?t2 and edata = zero_BVHTreeFromEditMesh]
  note b = spherecast_updates_iff_closer[where M = example_math and data = example_data
      and idx = 1 and ray = example_ray and hit = "example_hit\<lparr>hit_dist := Fin 0\<rparr>"
      and ?t0.0 = ?t0 and ?t1.0 = ?t1 and ?t2.0 = ?t2 and edata = zero_BVHTreeFromEditMesh]
  have h: "hit_dist example_hit = Fin 100" by (simp add: example_hit_def)
  from a have 1: "mesh_looptri_spherecast example_math example_data 1 example_ray example_hit =
     Inr \<lparr>hit_index = 1, hit_co = (Fin 0, Fin 0, Fin 0), hit_no = (Fin 0, Fin 0, Fin 1),
          hit_dist = Fin 0\<rparr>"
    unfolding c h d by (simp add: example_math_def)
  from b have 2: "mesh_looptri_spherecast example_math example_data 1 example_ray
       (example_hit\<lparr>hit_dist := Fin 0\<rparr>) = Inr (example_hit\<lparr>hit_dist := Fin 0\<rparr>)"
    unfolding c d by simp
  from 1 2 d[of "Fin 100"] show ?thesis by simp
qed

end
